theory Spec2Isabelle
  imports Main
begin

section \<open>Python values, entities and the object store\<close>

text \<open>
  The factories of \<^verbatim>\<open>lib/entities/entities_factory.py\<close> fill entity objects, which are
  plain attribute bags. Attribute values are the Python values the module handles:
  \<^verbatim>\<open>None\<close>, booleans, integers, byte strings and lists of strings.
\<close>

datatype pyval = PNone | PBool bool | PInt int | PStr string | PStrList "string list"

datatype py_error = TypeError | AttributeError | IndexError | KeyError

text \<open>Python truth value testing, as \<^verbatim>\<open>if x:\<close> and \<^verbatim>\<open>x and y\<close> use it.\<close>

fun truthy :: "pyval \<Rightarrow> bool" where
  "truthy PNone = False"
| "truthy (PBool b) = b"
| "truthy (PInt i) = (i \<noteq> 0)"
| "truthy (PStr s) = (s \<noteq> [])"
| "truthy (PStrList xs) = (xs \<noteq> [])"

text \<open>
  An entity is its instance dictionary; an attribute that was never set is absent.
  Objects live in a store and are passed around by reference, a reference being the
  index of the object in the store. A new object is appended, so it never aliases an
  existing one.
\<close>

type_synonym entity = "string \<rightharpoonup> pyval"
type_synonym ref = nat
type_synonym store = "entity list"

definition alloc :: "entity \<Rightarrow> store \<Rightarrow> ref \<times> store" where
  "alloc e s = (length s, s @ [e])"

definition getattr :: "store \<Rightarrow> ref \<Rightarrow> string \<Rightarrow> py_error + pyval" where
  "getattr s r a = (case (s ! r) a of None \<Rightarrow> Inl AttributeError | Some v \<Rightarrow> Inr v)"

definition setattr :: "store \<Rightarrow> ref \<Rightarrow> string \<Rightarrow> pyval \<Rightarrow> store" where
  "setattr s r a v = s[r := (s ! r)(a \<mapsto> v)]"

text \<open>\<^verbatim>\<open>copy.deepcopy(obj)\<close>: attribute values are immutable here, so the deep copy is a
  new object with the same instance dictionary.\<close>

definition deepcopy :: "store \<Rightarrow> ref \<Rightarrow> ref \<times> store" where
  "deepcopy s r = alloc (s ! r) s"

text \<open>Sequencing of computations that may raise.\<close>

definition rbind :: "py_error + 'a \<Rightarrow> ('a \<Rightarrow> py_error + 'b) \<Rightarrow> py_error + 'b" where
  "rbind m f = (case m of Inl e \<Rightarrow> Inl e | Inr x \<Rightarrow> f x)"

section \<open>EntitiesFactory\<close>

text \<open>
  \<^verbatim>\<open>
  def update_obj_attrs_values(cls, obj, attrs_names=all_objs_attrs_names, **arguments):
    [setattr(obj, attr_name, arguments[attr_name]) for
        attr_name in attrs_names if arguments.get(attr_name)]
    return obj
  \<close>
  \<open>update_loop\<close> is the list comprehension: \<^verbatim>\<open>arguments.get\<close> of a missing key is
  \<^verbatim>\<open>None\<close>, which is falsy.
\<close>

fun update_loop :: "store \<Rightarrow> ref \<Rightarrow> string list \<Rightarrow> (string \<rightharpoonup> pyval) \<Rightarrow> store" where
  "update_loop s obj [] arguments = s"
| "update_loop s obj (attr_name # rest) arguments =
     (case arguments attr_name of
        None \<Rightarrow> update_loop s obj rest arguments
      | Some v \<Rightarrow>
          if truthy v then update_loop (setattr s obj attr_name v) obj rest arguments
          else update_loop s obj rest arguments)"

definition update_obj_attrs_values ::
    "store \<Rightarrow> ref \<Rightarrow> string list \<Rightarrow> (string \<rightharpoonup> pyval) \<Rightarrow> ref \<times> store" where
  "update_obj_attrs_values s obj attrs_names arguments =
     (obj, update_loop s obj attrs_names arguments)"

section \<open>Strings\<close>

text \<open>\<^verbatim>\<open>str(n)\<close> of an integer: its decimal digits, with a minus sign below zero.\<close>

definition digit_char :: "nat \<Rightarrow> char" where
  "digit_char d = char_of (48 + d)"

fun str_nat :: "nat \<Rightarrow> string" where
  "str_nat n = (if n < 10 then [digit_char n] else str_nat (n div 10) @ [digit_char (n mod 10)])"

declare str_nat.simps [simp del]

definition str_int :: "int \<Rightarrow> string" where
  "str_int i = (if i < 0 then CHR ''-'' # str_nat (nat (- i)) else str_nat (nat i))"

text \<open>\<^verbatim>\<open>s.upper()\<close> of a byte string: the ASCII letters a-z are mapped to A-Z.\<close>

definition upper_char :: "char \<Rightarrow> char" where
  "upper_char ch = (let n = (of_char ch :: nat) in if 97 \<le> n \<and> n \<le> 122 then char_of (n - 32) else ch)"

definition upper :: "string \<Rightarrow> string" where
  "upper s = map upper_char s"

text \<open>
  \<^verbatim>\<open>re.sub("\d+$", repl, string)\<close> for a replacement without backslashes. \<^verbatim>\<open>\d\<close> is
  a digit 0-9 and \<^verbatim>\<open>$\<close> matches at the end of the string and just before a newline
  that ends the string, so the only possible match is the longest run of digits that ends
  there; without such a run the string is returned as it is.
\<close>

definition is_digit :: "char \<Rightarrow> bool" where
  "is_digit ch = (48 \<le> (of_char ch :: nat) \<and> (of_char ch :: nat) \<le> 57)"

definition re_sub_digits_end :: "string \<Rightarrow> string \<Rightarrow> string" where
  "re_sub_digits_end repl s =
     (let nl = (if s \<noteq> [] \<and> last s = CHR 0x0A then [CHR 0x0A] else []);
          body = (if s \<noteq> [] \<and> last s = CHR 0x0A then butlast s else s)
      in if takeWhile is_digit (rev body) = [] then s
         else rev (dropWhile is_digit (rev body)) @ repl @ nl)"

text \<open>
  \<^verbatim>\<open>str(v)\<close>, which is what \<^verbatim>\<open>"{x}".format(x=v)\<close> inserts. A list shows the \<^verbatim>\<open>repr\<close> of
  its strings: quoted (with double quotes when the string holds a single quote and no
  double quote), with backslash escapes.
\<close>

definition hex_digit :: "nat \<Rightarrow> char" where
  "hex_digit d = (if d < 10 then char_of (48 + d) else char_of (87 + d))"

definition repr_char :: "char \<Rightarrow> char \<Rightarrow> string" where
  "repr_char q ch =
     (let n = (of_char ch :: nat) in
      if ch = q \<or> n = 92 then [CHR 0x5C, ch]
      else if n = 9 then [CHR 0x5C, CHR ''t'']
      else if n = 10 then [CHR 0x5C, CHR ''n'']
      else if n = 13 then [CHR 0x5C, CHR ''r'']
      else if n < 32 \<or> 127 \<le> n then [CHR 0x5C, CHR ''x'', hex_digit (n div 16), hex_digit (n mod 16)]
      else [ch])"

definition repr_str :: "string \<Rightarrow> string" where
  "repr_str s =
     (let q = (if CHR 0x27 \<in> set s \<and> CHR 0x22 \<notin> set s then CHR 0x22 else CHR 0x27)
      in q # concat (map (repr_char q) s) @ [q])"

fun join :: "string \<Rightarrow> string list \<Rightarrow> string" where
  "join sep [] = []"
| "join sep [x] = x"
| "join sep (x # y # ys) = x @ sep @ join sep (y # ys)"

fun py_str :: "pyval \<Rightarrow> string" where
  "py_str PNone = ''None''"
| "py_str (PBool b) = (if b then ''True'' else ''False'')"
| "py_str (PInt i) = str_int i"
| "py_str (PStr s) = s"
| "py_str (PStrList xs) = ''['' @ join '', '' (map repr_str xs) @ '']''"

section \<open>Operators on Python values\<close>

text \<open>\<^verbatim>\<open>count == v\<close> for an integer \<open>count\<close>: \<^verbatim>\<open>True\<close> and \<^verbatim>\<open>False\<close> compare as 1 and 0.\<close>

fun py_eq_int :: "int \<Rightarrow> pyval \<Rightarrow> bool" where
  "py_eq_int n (PInt i) = (n = i)"
| "py_eq_int n (PBool b) = (n = (if b then 1 else 0))"
| "py_eq_int n v = False"

text \<open>\<^verbatim>\<open>v + num\<close> for an integer \<open>num\<close>.\<close>

fun py_add_int :: "pyval \<Rightarrow> int \<Rightarrow> py_error + int" where
  "py_add_int (PInt i) num = Inr (i + num)"
| "py_add_int (PBool b) num = Inr ((if b then 1 else 0) + num)"
| "py_add_int v num = Inl TypeError"

text \<open>\<^verbatim>\<open>v + "text"\<close> and \<^verbatim>\<open>"text" + v\<close> for a string \<open>text\<close>.\<close>

fun py_add_str :: "pyval \<Rightarrow> string \<Rightarrow> py_error + string" where
  "py_add_str (PStr t) x = Inr (t @ x)"
| "py_add_str v x = Inl TypeError"

fun py_str_add :: "string \<Rightarrow> pyval \<Rightarrow> py_error + string" where
  "py_str_add x (PStr t) = Inr (x @ t)"
| "py_str_add x v = Inl TypeError"

text \<open>\<^verbatim>\<open>re.sub("\d+$", repl, v)\<close>: anything but a string raises.\<close>

fun re_sub :: "string \<Rightarrow> pyval \<Rightarrow> py_error + string" where
  "re_sub repl (PStr h) = Inr (re_sub_digits_end repl h)"
| "re_sub repl v = Inl TypeError"

text \<open>\<^verbatim>\<open>d.get(k)\<close> and \<^verbatim>\<open>d[k]\<close> of a dictionary.\<close>

definition dict_get :: "(string \<rightharpoonup> pyval) \<Rightarrow> string \<Rightarrow> pyval" where
  "dict_get d k = (case d k of None \<Rightarrow> PNone | Some v \<Rightarrow> v)"

definition dict_item :: "(string \<rightharpoonup> pyval) \<Rightarrow> string \<Rightarrow> py_error + pyval" where
  "dict_item d k = (case d k of None \<Rightarrow> Inl KeyError | Some v \<Rightarrow> Inr v)"

text \<open>
  A list comprehension whose element expression reads and changes the state: the elements
  are computed from left to right, and the first one that raises ends it.
\<close>

fun list_comp :: "('st \<Rightarrow> 'x \<Rightarrow> py_error + ('r \<times> 'st)) \<Rightarrow> 'st \<Rightarrow> 'x list \<Rightarrow> py_error + ('r list \<times> 'st)" where
  "list_comp body st [] = Inr ([], st)"
| "list_comp body st (x # xs) =
     rbind (body st x) (\<lambda>(r, st1).
     rbind (list_comp body st1 xs) (\<lambda>(rs, st2). Inr (r # rs, st2)))"

text \<open>\<^verbatim>\<open>enumerate(xs, start=n)\<close>.\<close>

fun enumerate_from :: "int \<Rightarrow> 'a list \<Rightarrow> (int \<times> 'a) list" where
  "enumerate_from n [] = []"
| "enumerate_from n (x # xs) = (n, x) # enumerate_from (n + 1) xs"

text \<open>
  Binding the keyword arguments of a call to a signature whose parameters all have
  defaults: a keyword that is not a parameter raises \<^verbatim>\<open>TypeError\<close>, a parameter that is
  not supplied takes its default.
\<close>

definition bind_kwargs :: "(string \<times> pyval) list \<Rightarrow> (string \<times> pyval) list \<Rightarrow> py_error + (string \<rightharpoonup> pyval)" where
  "bind_kwargs params supplied =
     (if list_all (\<lambda>kv. fst kv \<in> set (map fst params)) supplied
      then Inr (map_of (map (\<lambda>pd. (fst pd, case map_of supplied (fst pd) of None \<Rightarrow> snd pd | Some v \<Rightarrow> v)) params))
      else Inl TypeError)"

section \<open>Randomness\<close>

text \<open>
  The random generator is a tape of draws that is consumed from the front: numbers for
  \<^verbatim>\<open>random.choice\<close> and token strings for the unique-token generator.
\<close>

record rng =
  choices :: "nat \<Rightarrow> nat"
  tokens :: "nat \<Rightarrow> string"

text \<open>\<^verbatim>\<open>random.choice(seq)\<close>: an element of \<open>seq\<close>, \<^verbatim>\<open>IndexError\<close> when it is empty.\<close>

definition random_choice :: "'a list \<Rightarrow> rng \<Rightarrow> py_error + ('a \<times> rng)" where
  "random_choice seq g =
     (if seq = [] then Inl IndexError
      else Inr (seq ! (choices g 0 mod length seq), g\<lparr>choices := \<lambda>i. choices g (Suc i)\<rparr>))"

text \<open>Modelled from the spec: \<^verbatim>\<open>string_utils.random_uuid\<close> is not among the sources; the
  spec calls its result a random unique token. It is the next token of the tape.\<close>

definition random_uuid :: "rng \<Rightarrow> string \<times> rng" where
  "random_uuid g = (tokens g 0, g\<lparr>tokens := \<lambda>i. tokens g (Suc i)\<rparr>)"

text \<open>Modelled from the spec: \<^verbatim>\<open>string_utils.random_string(size, chars)\<close> is not among the
  sources; the spec describes a random string of the given size whose characters come from
  \<open>chars\<close>. Each character is one \<^verbatim>\<open>random.choice(chars)\<close>.\<close>

fun random_string :: "nat \<Rightarrow> string \<Rightarrow> rng \<Rightarrow> py_error + (string \<times> rng)" where
  "random_string 0 chars g = Inr ([], g)"
| "random_string (Suc n) chars g =
     rbind (random_choice chars g) (\<lambda>(ch, g1).
     rbind (random_string n chars g1) (\<lambda>(cs, g2). Inr (ch # cs, g2)))"

text \<open>Modelled from the spec: \<^verbatim>\<open>string_utils.random_list_strings(list_len)\<close> is not among
  the sources; the spec describes \<open>list_len\<close> random strings. They are the next \<open>list_len\<close>
  tokens of the tape.\<close>

definition random_list_strings :: "nat \<Rightarrow> rng \<Rightarrow> string list \<times> rng" where
  "random_list_strings list_len g =
     (map (tokens g) [0..<list_len], g\<lparr>tokens := \<lambda>i. tokens g (i + list_len)\<rparr>)"

section \<open>Constants of the imported modules\<close>

text \<open>
  The factories read constant tables of \<^verbatim>\<open>lib.constants\<close>, \<^verbatim>\<open>lib.utils.string_utils\<close> and
  the entity classes of \<^verbatim>\<open>lib.entities.entity\<close>, none of which is among the sources.
  They are a parameter of every factory: \<open>new_entity c cls\<close> is the instance dictionary
  of a freshly constructed object of the entity class \<open>cls\<close>, and \<open>get_normal_form\<close> is
  the lookup \<^verbatim>\<open>objects.get_normal_form\<close>, which may raise.
\<close>

record constants =
  all_objs_attrs_names :: "string list"
  SPECIAL :: string
  DEFAULT_EMAIL_DOMAIN :: string
  DEFAULT_USER :: pyval
  NO_ROLE :: pyval
  OBJECT_OWNERS :: pyval
  CONTROLS :: pyval
  ObjectStates_DRAFT :: pyval
  AuditStates_PLANNED :: pyval
  AssessmentStates_NOT_STARTED :: pyval
  Common_FALSE :: pyval
  IssueStates_DRAFT :: pyval
  ALL_ATTRS_TYPES :: "string list"
  TEXT :: string
  RICH_TEXT :: string
  DROPDOWN :: string
  ALL_CA_OBJECTS :: "string list"
  get_normal_form :: "pyval \<Rightarrow> py_error + pyval"
  new_entity :: "string \<Rightarrow> entity"

text \<open>Modelled from the spec: \<^verbatim>\<open>objects.get_singular\<close> and the plural names it is applied
  to are not among the sources. These are the canonical singular names of the seven domain
  types, in the lower-case form whose upper case the sequential codes of the spec show
  (\<^verbatim>\<open>ASSESSMENT-6\<close>).\<close>

definition obj_person :: string where "obj_person = ''person''"
definition obj_program :: string where "obj_program = ''program''"
definition obj_control :: string where "obj_control = ''control''"
definition obj_audit :: string where "obj_audit = ''audit''"
definition obj_asmt_tmpl :: string where "obj_asmt_tmpl = ''assessment_template''"
definition obj_asmt :: string where "obj_asmt = ''assessment''"
definition obj_issue :: string where "obj_issue = ''issue''"

section \<open>EntitiesFactory: generated titles, codes and emails\<close>

text \<open>
  \<^verbatim>\<open>
  def _generate_title(cls, obj_type):
    special_chars = string_utils.SPECIAL
    return "{obj_type}_{uuid}_{rand_str}".format(
        obj_type=obj_type, uuid=random_uuid(),
        rand_str=random_string(size=len(special_chars), chars=special_chars))
  \<close>
\<close>

definition generate_title :: "constants \<Rightarrow> pyval \<Rightarrow> rng \<Rightarrow> py_error + (string \<times> rng)" where
  "generate_title c obj_type g =
     (let special_chars = SPECIAL c;
          (uuid, g1) = random_uuid g
      in rbind (random_string (length special_chars) special_chars g1) (\<lambda>(rand_str, g2).
           Inr (py_str obj_type @ ''_'' @ uuid @ ''_'' @ rand_str, g2)))"

definition generate_code :: "rng \<Rightarrow> string \<times> rng" where
  "generate_code g = random_uuid g"

definition generate_email :: "constants \<Rightarrow> rng \<Rightarrow> string \<times> rng" where
  "generate_email c g =
     (let (mail_name, g1) = random_uuid g in (mail_name @ ''@'' @ DEFAULT_EMAIL_DOMAIN c, g1))"

text \<open>
  The \<open>create\<close> methods share one shape: bind the keyword arguments, build the random
  entity, apply the overrides with \<open>update_obj_attrs_values\<close> and return the entity.
  \<^verbatim>\<open>
    person_entity = cls._create_random_person()
    person_entity = cls.update_obj_attrs_values(obj=person_entity, title=title, ...)
    return person_entity
  \<close>
\<close>

definition create_with ::
    "(string \<times> pyval) list \<Rightarrow> (store \<Rightarrow> rng \<Rightarrow> py_error + (ref \<times> store \<times> rng)) \<Rightarrow>
     constants \<Rightarrow> store \<Rightarrow> rng \<Rightarrow> (string \<times> pyval) list \<Rightarrow> py_error + (ref \<times> store \<times> rng)" where
  "create_with params create_random c s g kwargs =
     rbind (bind_kwargs params kwargs) (\<lambda>arguments.
     rbind (create_random s g) (\<lambda>(obj, s1, g1).
       let (obj', s2) = update_obj_attrs_values s1 obj (all_objs_attrs_names c) arguments
       in Inr (obj', s2, g1)))"

section \<open>PersonsFactory\<close>

definition create_random_person :: "constants \<Rightarrow> store \<Rightarrow> rng \<Rightarrow> py_error + (ref \<times> store \<times> rng)" where
  "create_random_person c s g =
     (let (random_person, s1) = alloc (new_entity c ''PersonEntity'') s
      in rbind (generate_title c (PStr obj_person) g) (\<lambda>(title, g1).
           let s2 = setattr s1 random_person ''title'' (PStr title);
               s3 = setattr s2 random_person ''type'' (PStr obj_person);
               (email, g2) = generate_email c g1;
               s4 = setattr s3 random_person ''email'' (PStr email);
               s5 = setattr s4 random_person ''authorizations'' (NO_ROLE c)
           in Inr (random_person, s5, g2)))"

definition person_params :: "(string \<times> pyval) list" where
  "person_params = map (\<lambda>p. (p, PNone))
     [''title'', ''id'', ''href'', ''url'', ''type'', ''email'', ''authorizations'']"

definition PersonsFactory_create ::
    "constants \<Rightarrow> store \<Rightarrow> rng \<Rightarrow> (string \<times> pyval) list \<Rightarrow> py_error + (ref \<times> store \<times> rng)" where
  "PersonsFactory_create c = create_with person_params (create_random_person c) c"

section \<open>ProgramsFactory and ControlsFactory\<close>

definition create_random_program :: "constants \<Rightarrow> store \<Rightarrow> rng \<Rightarrow> py_error + (ref \<times> store \<times> rng)" where
  "create_random_program c s g =
     (let (random_program, s1) = alloc (new_entity c ''ProgramEntity'') s
      in rbind (generate_title c (PStr obj_program) g) (\<lambda>(title, g1).
           let s2 = setattr s1 random_program ''title'' (PStr title);
               s3 = setattr s2 random_program ''type'' (PStr obj_program);
               (code, g2) = generate_code g1;
               s4 = setattr s3 random_program ''code'' (PStr code);
               s5 = setattr s4 random_program ''manager'' (DEFAULT_USER c);
               s6 = setattr s5 random_program ''primary_contact'' (DEFAULT_USER c);
               s7 = setattr s6 random_program ''state'' (ObjectStates_DRAFT c)
           in Inr (random_program, s7, g2)))"

definition program_params :: "(string \<times> pyval) list" where
  "program_params = map (\<lambda>p. (p, PNone))
     [''title'', ''id'', ''href'', ''url'', ''type'', ''manager'', ''primary_contact'',
      ''code'', ''state'', ''last_update'']"

definition ProgramsFactory_create ::
    "constants \<Rightarrow> store \<Rightarrow> rng \<Rightarrow> (string \<times> pyval) list \<Rightarrow> py_error + (ref \<times> store \<times> rng)" where
  "ProgramsFactory_create c = create_with program_params (create_random_program c) c"

definition create_random_control :: "constants \<Rightarrow> store \<Rightarrow> rng \<Rightarrow> py_error + (ref \<times> store \<times> rng)" where
  "create_random_control c s g =
     (let (random_control, s1) = alloc (new_entity c ''ControlEntity'') s
      in rbind (generate_title c (PStr obj_control) g) (\<lambda>(title, g1).
           let s2 = setattr s1 random_control ''title'' (PStr title);
               s3 = setattr s2 random_control ''type'' (PStr obj_control);
               (code, g2) = generate_code g1;
               s4 = setattr s3 random_control ''code'' (PStr code);
               s5 = setattr s4 random_control ''owner'' (DEFAULT_USER c);
               s6 = setattr s5 random_control ''primary_contact'' (DEFAULT_USER c);
               s7 = setattr s6 random_control ''state'' (ObjectStates_DRAFT c)
           in Inr (random_control, s7, g2)))"

definition control_params :: "(string \<times> pyval) list" where
  "control_params = map (\<lambda>p. (p, PNone))
     [''title'', ''id'', ''href'', ''url'', ''type'', ''owner'', ''primary_contact'',
      ''code'', ''state'', ''last_update'']"

definition ControlsFactory_create ::
    "constants \<Rightarrow> store \<Rightarrow> rng \<Rightarrow> (string \<times> pyval) list \<Rightarrow> py_error + (ref \<times> store \<times> rng)" where
  "ControlsFactory_create c = create_with control_params (create_random_control c) c"

section \<open>AuditsFactory\<close>

definition create_random_audit :: "constants \<Rightarrow> store \<Rightarrow> rng \<Rightarrow> py_error + (ref \<times> store \<times> rng)" where
  "create_random_audit c s g =
     (let (random_audit, s1) = alloc (new_entity c ''AuditEntity'') s
      in rbind (generate_title c (PStr obj_audit) g) (\<lambda>(title, g1).
           let s2 = setattr s1 random_audit ''title'' (PStr title);
               s3 = setattr s2 random_audit ''type'' (PStr obj_audit);
               (code, g2) = generate_code g1;
               s4 = setattr s3 random_audit ''code'' (PStr code);
               s5 = setattr s4 random_audit ''audit_lead'' (DEFAULT_USER c);
               s6 = setattr s5 random_audit ''status'' (AuditStates_PLANNED c)
           in Inr (random_audit, s6, g2)))"

definition audit_params :: "(string \<times> pyval) list" where
  "audit_params = map (\<lambda>p. (p, PNone))
     [''title'', ''id'', ''href'', ''url'', ''type'', ''program'', ''audit_lead'',
      ''code'', ''status'', ''last_update'']"

definition AuditsFactory_create ::
    "constants \<Rightarrow> store \<Rightarrow> rng \<Rightarrow> (string \<times> pyval) list \<Rightarrow> py_error + (ref \<times> store \<times> rng)" where
  "AuditsFactory_create c = create_with audit_params (create_random_audit c) c"

text \<open>
  \<^verbatim>\<open>
  def clone(cls, audit, count_to_clone=1):
    actual_count_all_audits = ObjectsInfoService().get_total_count(...)
    if actual_count_all_audits == audit.id:
      return [
          cls.update_obj_attrs_values(
              obj=copy.deepcopy(audit),
              title=audit.title + " - copy " + str(num), id=audit.id + num,
              href=re.sub("\d+$", str(audit.id + num), audit.href),
              url=re.sub("\d+$", str(audit.id + num), audit.url),
              code=(cls._obj_audit.upper() + "-" + str(audit.id + num))) for
          num in xrange(1, count_to_clone + 1)]
  \<close>
  The answer of the count service is the parameter \<open>actual_count\<close>. \<open>audit_clone_elem\<close>
  is the element expression of the comprehension; a method that falls off its end returns
  \<^verbatim>\<open>None\<close>, which is the result \<open>None\<close> here.
\<close>

definition audit_clone_elem :: "constants \<Rightarrow> ref \<Rightarrow> store \<Rightarrow> int \<Rightarrow> py_error + (ref \<times> store)" where
  "audit_clone_elem c audit s num =
     (let (obj, s1) = deepcopy s audit
      in rbind (getattr s1 audit ''title'') (\<lambda>t.
         rbind (py_add_str t '' - copy '') (\<lambda>t1.
         rbind (getattr s1 audit ''id'') (\<lambda>i.
         rbind (py_add_int i num) (\<lambda>new_id.
         rbind (getattr s1 audit ''href'') (\<lambda>h.
         rbind (re_sub (str_int new_id) h) (\<lambda>href.
         rbind (getattr s1 audit ''url'') (\<lambda>u.
         rbind (re_sub (str_int new_id) u) (\<lambda>url.
           Inr (update_obj_attrs_values s1 obj (all_objs_attrs_names c)
                  [''title'' \<mapsto> PStr (t1 @ str_int num),
                   ''id'' \<mapsto> PInt new_id,
                   ''href'' \<mapsto> PStr href,
                   ''url'' \<mapsto> PStr url,
                   ''code'' \<mapsto> PStr (upper obj_audit @ ''-'' @ str_int new_id)]))))))))))"

definition AuditsFactory_clone ::
    "constants \<Rightarrow> int \<Rightarrow> store \<Rightarrow> ref \<Rightarrow> int \<Rightarrow> py_error + (ref list option \<times> store)" where
  "AuditsFactory_clone c actual_count s audit count_to_clone =
     rbind (getattr s audit ''id'') (\<lambda>i.
       if py_eq_int actual_count i
       then rbind (list_comp (audit_clone_elem c audit) s [1..count_to_clone])
              (\<lambda>(objs, s'). Inr (Some objs, s'))
       else Inr (None, s))"

section \<open>AssessmentTemplatesFactory\<close>

definition create_random_asmt_tmpl :: "constants \<Rightarrow> store \<Rightarrow> rng \<Rightarrow> py_error + (ref \<times> store \<times> rng)" where
  "create_random_asmt_tmpl c s g =
     (let (random_asmt_tmpl, s1) = alloc (new_entity c ''AssessmentTemplateEntity'') s
      in rbind (generate_title c (PStr obj_asmt_tmpl) g) (\<lambda>(title, g1).
           let s2 = setattr s1 random_asmt_tmpl ''title'' (PStr title);
               s3 = setattr s2 random_asmt_tmpl ''type'' (PStr obj_asmt_tmpl);
               (code, g2) = generate_code g1;
               s4 = setattr s3 random_asmt_tmpl ''code'' (PStr code);
               s5 = setattr s4 random_asmt_tmpl ''asmt_objects'' (CONTROLS c);
               s6 = setattr s5 random_asmt_tmpl ''def_assessors'' (OBJECT_OWNERS c);
               s7 = setattr s6 random_asmt_tmpl ''def_verifiers'' (OBJECT_OWNERS c)
           in Inr (random_asmt_tmpl, s7, g2)))"

definition asmt_tmpl_params :: "(string \<times> pyval) list" where
  "asmt_tmpl_params = map (\<lambda>p. (p, PNone))
     [''title'', ''id'', ''href'', ''url'', ''type'', ''audit'', ''asmt_objects'',
      ''def_assessors'', ''def_verifiers'', ''code'', ''last_update'']"

definition AssessmentTemplatesFactory_create ::
    "constants \<Rightarrow> store \<Rightarrow> rng \<Rightarrow> (string \<times> pyval) list \<Rightarrow> py_error + (ref \<times> store \<times> rng)" where
  "AssessmentTemplatesFactory_create c = create_with asmt_tmpl_params (create_random_asmt_tmpl c) c"

text \<open>
  \<^verbatim>\<open>
  def clone(cls, asmt_tmpl, count_to_clone=1):
    actual_count_all_asmt_tmpls = ObjectsInfoService().get_total_count(...)
    if actual_count_all_asmt_tmpls == asmt_tmpl.id:
      return [
          cls.update_obj_attrs_values(
              obj=copy.deepcopy(asmt_tmpl), id=asmt_tmpl.id + num,
              href=re.sub("\d+$", str(asmt_tmpl.id + num), asmt_tmpl.href),
              url=re.sub("\d+$", str(asmt_tmpl.id + num), asmt_tmpl.url),
              code=("TEMPLATE-" + str(asmt_tmpl.id + num))) for
          num in xrange(1, count_to_clone + 1)]
  \<close>
\<close>

definition asmt_tmpl_clone_elem :: "constants \<Rightarrow> ref \<Rightarrow> store \<Rightarrow> int \<Rightarrow> py_error + (ref \<times> store)" where
  "asmt_tmpl_clone_elem c asmt_tmpl s num =
     (let (obj, s1) = deepcopy s asmt_tmpl
      in rbind (getattr s1 asmt_tmpl ''id'') (\<lambda>i.
         rbind (py_add_int i num) (\<lambda>new_id.
         rbind (getattr s1 asmt_tmpl ''href'') (\<lambda>h.
         rbind (re_sub (str_int new_id) h) (\<lambda>href.
         rbind (getattr s1 asmt_tmpl ''url'') (\<lambda>u.
         rbind (re_sub (str_int new_id) u) (\<lambda>url.
           Inr (update_obj_attrs_values s1 obj (all_objs_attrs_names c)
                  [''id'' \<mapsto> PInt new_id,
                   ''href'' \<mapsto> PStr href,
                   ''url'' \<mapsto> PStr url,
                   ''code'' \<mapsto> PStr (''TEMPLATE-'' @ str_int new_id)]))))))))"

definition AssessmentTemplatesFactory_clone ::
    "constants \<Rightarrow> int \<Rightarrow> store \<Rightarrow> ref \<Rightarrow> int \<Rightarrow> py_error + (ref list option \<times> store)" where
  "AssessmentTemplatesFactory_clone c actual_count s asmt_tmpl count_to_clone =
     rbind (getattr s asmt_tmpl ''id'') (\<lambda>i.
       if py_eq_int actual_count i
       then rbind (list_comp (asmt_tmpl_clone_elem c asmt_tmpl) s [1..count_to_clone])
              (\<lambda>(objs, s'). Inr (Some objs, s'))
       else Inr (None, s))"

section \<open>AssessmentsFactory\<close>

definition create_random_asmt :: "constants \<Rightarrow> store \<Rightarrow> rng \<Rightarrow> py_error + (ref \<times> store \<times> rng)" where
  "create_random_asmt c s g =
     (let (random_asmt, s1) = alloc (new_entity c ''AssessmentEntity'') s
      in rbind (generate_title c (PStr obj_asmt) g) (\<lambda>(title, g1).
           let s2 = setattr s1 random_asmt ''title'' (PStr title);
               s3 = setattr s2 random_asmt ''type'' (PStr obj_asmt);
               (code, g2) = generate_code g1;
               s4 = setattr s3 random_asmt ''code'' (PStr code);
               s5 = setattr s4 random_asmt ''object'' (DEFAULT_USER c);
               s6 = setattr s5 random_asmt ''creators'' (DEFAULT_USER c);
               s7 = setattr s6 random_asmt ''assignees'' (DEFAULT_USER c);
               s8 = setattr s7 random_asmt ''state'' (AssessmentStates_NOT_STARTED c);
               s9 = setattr s8 random_asmt ''is_verified'' (Common_FALSE c)
           in Inr (random_asmt, s9, g2)))"

definition asmt_params :: "(string \<times> pyval) list" where
  "asmt_params = map (\<lambda>p. (p, PNone))
     [''title'', ''id'', ''href'', ''url'', ''type'', ''object'', ''audit'', ''creators'',
      ''assignees'', ''primary_contact'', ''is_verified'', ''code'', ''state'', ''last_update'']"

definition AssessmentsFactory_create ::
    "constants \<Rightarrow> store \<Rightarrow> rng \<Rightarrow> (string \<times> pyval) list \<Rightarrow> py_error + (ref \<times> store \<times> rng)" where
  "AssessmentsFactory_create c = create_with asmt_params (create_random_asmt c) c"

text \<open>
  \<^verbatim>\<open>
  def generate(cls, objs_under_asmt_tmpl, audit):
    actual_count_all_asmts = ObjectsInfoService().get_total_count(...)
    return [
        cls.create(
            title=obj_under_asmt_tmpl.title + " assessment for " + audit.title,
            code=(cls._obj_asmt.upper() + "-" + str(asmt_number)),
            audit=audit.title) for asmt_number, obj_under_asmt_tmpl in
        enumerate(objs_under_asmt_tmpl, start=actual_count_all_asmts + 1)]
  \<close>
\<close>

definition generate_elem ::
    "constants \<Rightarrow> ref \<Rightarrow> store \<times> rng \<Rightarrow> int \<times> ref \<Rightarrow> py_error + (ref \<times> store \<times> rng)" where
  "generate_elem c audit st x =
     (let (s, g) = st; (asmt_number, obj_under_asmt_tmpl) = x
      in rbind (getattr s obj_under_asmt_tmpl ''title'') (\<lambda>t.
         rbind (py_add_str t '' assessment for '') (\<lambda>t1.
         rbind (getattr s audit ''title'') (\<lambda>a.
         rbind (py_str_add t1 a) (\<lambda>title.
         rbind (getattr s audit ''title'') (\<lambda>a2.
           AssessmentsFactory_create c s g
             [(''title'', PStr title),
              (''code'', PStr (upper obj_asmt @ ''-'' @ str_int asmt_number)),
              (''audit'', a2)]))))))"

definition AssessmentsFactory_generate ::
    "constants \<Rightarrow> int \<Rightarrow> store \<Rightarrow> rng \<Rightarrow> ref list \<Rightarrow> ref \<Rightarrow> py_error + (ref list \<times> store \<times> rng)" where
  "AssessmentsFactory_generate c actual_count s g objs_under_asmt_tmpl audit =
     list_comp (generate_elem c audit) (s, g)
       (enumerate_from (actual_count + 1) objs_under_asmt_tmpl)"

section \<open>IssuesFactory\<close>

definition create_random_issue :: "constants \<Rightarrow> store \<Rightarrow> rng \<Rightarrow> py_error + (ref \<times> store \<times> rng)" where
  "create_random_issue c s g =
     (let (random_issue, s1) = alloc (new_entity c ''IssueEntity'') s
      in rbind (generate_title c (PStr obj_issue) g) (\<lambda>(title, g1).
           let s2 = setattr s1 random_issue ''title'' (PStr title);
               s3 = setattr s2 random_issue ''type'' (PStr obj_issue);
               (code, g2) = generate_code g1;
               s4 = setattr s3 random_issue ''code'' (PStr code);
               s5 = setattr s4 random_issue ''owner'' (DEFAULT_USER c);
               s6 = setattr s5 random_issue ''primary_contact'' (DEFAULT_USER c);
               s7 = setattr s6 random_issue ''state'' (IssueStates_DRAFT c)
           in Inr (random_issue, s7, g2)))"

definition issue_params :: "(string \<times> pyval) list" where
  "issue_params = map (\<lambda>p. (p, PNone))
     [''title'', ''id'', ''href'', ''url'', ''type'', ''audit'', ''owner'', ''primary_contact'',
      ''code'', ''state'', ''last_update'']"

definition IssuesFactory_create ::
    "constants \<Rightarrow> store \<Rightarrow> rng \<Rightarrow> (string \<times> pyval) list \<Rightarrow> py_error + (ref \<times> store \<times> rng)" where
  "IssuesFactory_create c = create_with issue_params (create_random_issue c) c"

section \<open>CAFactory\<close>

text \<open>
  \<^verbatim>\<open>
  def _create_random_ca(cls):
    random_ca = entity.CustomAttributeEntity()
    random_ca.ca_type = random.choice(AdminWidgetCustomAttrs.ALL_ATTRS_TYPES)
    random_ca.title = cls._generate_title(random_ca.ca_type)
    random_ca.definition_type = random.choice(objects.ALL_CA_OBJECTS)
    return random_ca
  \<close>
\<close>

definition create_random_ca :: "constants \<Rightarrow> store \<Rightarrow> rng \<Rightarrow> py_error + (ref \<times> store \<times> rng)" where
  "create_random_ca c s g =
     (let (random_ca, s1) = alloc (new_entity c ''CustomAttributeEntity'') s
      in rbind (random_choice (ALL_ATTRS_TYPES c) g) (\<lambda>(ca_type, g1).
         let s2 = setattr s1 random_ca ''ca_type'' (PStr ca_type)
         in rbind (getattr s2 random_ca ''ca_type'') (\<lambda>ct.
            rbind (generate_title c ct g1) (\<lambda>(title, g2).
            let s3 = setattr s2 random_ca ''title'' (PStr title)
            in rbind (random_choice (ALL_CA_OBJECTS c) g2) (\<lambda>(definition_type, g3).
               Inr (random_ca, setattr s3 random_ca ''definition_type'' (PStr definition_type), g3))))))"

text \<open>
  The statements \<^verbatim>\<open>if ca_object_fields.get(k): ca_object.a = ca_object_fields[k']\<close> of
  \<^verbatim>\<open>_fill_ca_entity_fields\<close>, with the tested key, the attribute and the key that is read.
\<close>

definition assign_if ::
    "store \<Rightarrow> ref \<Rightarrow> (string \<rightharpoonup> pyval) \<Rightarrow> string \<Rightarrow> string \<Rightarrow> string \<Rightarrow> py_error + store" where
  "assign_if s obj ca_object_fields tested attr key =
     (if truthy (dict_get ca_object_fields tested)
      then rbind (dict_item ca_object_fields key) (\<lambda>v. Inr (setattr s obj attr v))
      else Inr s)"

text \<open>
  \<^verbatim>\<open>
  def _fill_ca_entity_fields(cls, ca_object, **ca_object_fields):
    if ca_object_fields.get("ca_type"):
      ca_object.ca_type = ca_object_fields["ca_type"]
      ca_object.title = cls._generate_title(ca_object.ca_type)
    if ca_object_fields.get("definition_type"):
      ca_object.definition_type = ca_object_fields["definition_type"]
    if ca_object_fields.get("title"):
      ca_object.title = ca_object_fields["definition_type"]
    if (ca_object_fields.get("placeholder") and
        ca_object.ca_type in (AdminWidgetCustomAttrs.TEXT,
                              AdminWidgetCustomAttrs.RICH_TEXT)):
      ca_object.placeholder = ca_object_fields["placeholder"]
    if ca_object_fields.get("helptext"):
      ca_object.helptext = ca_object_fields["helptext"]
    if ca_object_fields.get("is_mandatory"):
      ca_object.is_mandatory = ca_object_fields["is_mandatory"]
    if ca_object_fields.get("ca_global"):
      ca_object.ca_global = ca_object_fields["ca_global"]
    if ca_object.ca_type == AdminWidgetCustomAttrs.DROPDOWN:
      if (ca_object_fields.get("multi_choice_options") and
              ca_object_fields["multi_choice_options"] is not None):
        ca_object.multi_choice_options = ca_object_fields["multi_choice_options"]
      else:
        ca_object.multi_choice_options = random_list_strings(list_len=3)
    return ca_object
  \<close>
  One definition for each statement, in the order of the source.
\<close>

definition fill_ca_type ::
    "constants \<Rightarrow> store \<Rightarrow> rng \<Rightarrow> ref \<Rightarrow> (string \<rightharpoonup> pyval) \<Rightarrow> py_error + (store \<times> rng)" where
  "fill_ca_type c s g ca_object ca_object_fields =
     (if truthy (dict_get ca_object_fields ''ca_type'')
      then rbind (dict_item ca_object_fields ''ca_type'') (\<lambda>v.
           let s1 = setattr s ca_object ''ca_type'' v
           in rbind (getattr s1 ca_object ''ca_type'') (\<lambda>ct.
              rbind (generate_title c ct g) (\<lambda>(title, g1).
                Inr (setattr s1 ca_object ''title'' (PStr title), g1))))
      else Inr (s, g))"

definition fill_placeholder ::
    "constants \<Rightarrow> store \<Rightarrow> ref \<Rightarrow> (string \<rightharpoonup> pyval) \<Rightarrow> py_error + store" where
  "fill_placeholder c s ca_object ca_object_fields =
     (if truthy (dict_get ca_object_fields ''placeholder'')
      then rbind (getattr s ca_object ''ca_type'') (\<lambda>ct.
             if ct = PStr (TEXT c) \<or> ct = PStr (RICH_TEXT c)
             then rbind (dict_item ca_object_fields ''placeholder'') (\<lambda>v.
                    Inr (setattr s ca_object ''placeholder'' v))
             else Inr s)
      else Inr s)"

definition fill_multi_choice_options ::
    "constants \<Rightarrow> store \<Rightarrow> rng \<Rightarrow> ref \<Rightarrow> (string \<rightharpoonup> pyval) \<Rightarrow> py_error + (store \<times> rng)" where
  "fill_multi_choice_options c s g ca_object ca_object_fields =
     rbind (getattr s ca_object ''ca_type'') (\<lambda>ct.
       if ct = PStr (DROPDOWN c)
       then if truthy (dict_get ca_object_fields ''multi_choice_options'')
            then rbind (dict_item ca_object_fields ''multi_choice_options'') (\<lambda>v.
                   if v \<noteq> PNone
                   then Inr (setattr s ca_object ''multi_choice_options'' v, g)
                   else let (xs, g1) = random_list_strings 3 g
                        in Inr (setattr s ca_object ''multi_choice_options'' (PStrList xs), g1))
            else let (xs, g1) = random_list_strings 3 g
                 in Inr (setattr s ca_object ''multi_choice_options'' (PStrList xs), g1)
       else Inr (s, g))"

definition fill_ca_entity_fields ::
    "constants \<Rightarrow> store \<Rightarrow> rng \<Rightarrow> ref \<Rightarrow> (string \<rightharpoonup> pyval) \<Rightarrow> py_error + (ref \<times> store \<times> rng)" where
  "fill_ca_entity_fields c s g ca_object ca_object_fields =
     rbind (fill_ca_type c s g ca_object ca_object_fields) (\<lambda>(s1, g1).
     rbind (assign_if s1 ca_object ca_object_fields ''definition_type'' ''definition_type'' ''definition_type'') (\<lambda>s2.
     rbind (assign_if s2 ca_object ca_object_fields ''title'' ''title'' ''definition_type'') (\<lambda>s3.
     rbind (fill_placeholder c s3 ca_object ca_object_fields) (\<lambda>s4.
     rbind (assign_if s4 ca_object ca_object_fields ''helptext'' ''helptext'' ''helptext'') (\<lambda>s5.
     rbind (assign_if s5 ca_object ca_object_fields ''is_mandatory'' ''is_mandatory'' ''is_mandatory'') (\<lambda>s6.
     rbind (assign_if s6 ca_object ca_object_fields ''ca_global'' ''ca_global'' ''ca_global'') (\<lambda>s7.
     rbind (fill_multi_choice_options c s7 g1 ca_object ca_object_fields) (\<lambda>(s8, g2).
       Inr (ca_object, s8, g2)))))))))"

text \<open>
  \<^verbatim>\<open>
  def _normalize_ca_definition_type(cls, ca_object):
    ca_object.definition_type = objects.get_normal_form(ca_object.definition_type)
    return ca_object
  \<close>
\<close>

definition normalize_ca_definition_type :: "constants \<Rightarrow> store \<Rightarrow> ref \<Rightarrow> py_error + (ref \<times> store)" where
  "normalize_ca_definition_type c s ca_object =
     rbind (getattr s ca_object ''definition_type'') (\<lambda>d.
     rbind (get_normal_form c d) (\<lambda>n.
       Inr (ca_object, setattr s ca_object ''definition_type'' n)))"

text \<open>
  \<^verbatim>\<open>
  def create(cls, title=None, ca_type=None, definition_type=None, helptext="",
             placeholder=None, multi_choice_options=None, is_mandatory=False,
             ca_global=True):
    ca_entity = cls._create_random_ca()
    ca_entity = cls._fill_ca_entity_fields(ca_entity, title=title, ...)
    ca_entity = cls._normalize_ca_definition_type(ca_entity)
    return ca_entity
  \<close>
\<close>

definition ca_params :: "(string \<times> pyval) list" where
  "ca_params =
     [(''title'', PNone), (''ca_type'', PNone), (''definition_type'', PNone),
      (''helptext'', PStr []), (''placeholder'', PNone), (''multi_choice_options'', PNone),
      (''is_mandatory'', PBool False), (''ca_global'', PBool True)]"

definition CAFactory_create ::
    "constants \<Rightarrow> store \<Rightarrow> rng \<Rightarrow> (string \<times> pyval) list \<Rightarrow> py_error + (ref \<times> store \<times> rng)" where
  "CAFactory_create c s g kwargs =
     rbind (bind_kwargs ca_params kwargs) (\<lambda>ca_object_fields.
     rbind (create_random_ca c s g) (\<lambda>(ca_entity, s1, g1).
     rbind (fill_ca_entity_fields c s1 g1 ca_entity ca_object_fields) (\<lambda>(ca_entity2, s2, g2).
     rbind (normalize_ca_definition_type c s2 ca_entity2) (\<lambda>(ca_entity3, s3).
       Inr (ca_entity3, s3, g2)))))"

section \<open>An instance of the constant tables\<close>

text \<open>
  Modelled from the spec: the constant tables, the entity classes and
  \<^verbatim>\<open>objects.get_normal_form\<close> are not among the sources. \<open>example_constants\<close> is one
  instance of them, on which the factories are run: entity objects start with every
  attribute of the allow-list set to \<^verbatim>\<open>None\<close>, the attribute kinds are the ones the spec
  names, and the normal form of a name is its title form with underscores turned into
  spaces (anything but a string raises).
\<close>

definition lower_char :: "char \<Rightarrow> char" where
  "lower_char ch = (let n = (of_char ch :: nat) in if 65 \<le> n \<and> n \<le> 90 then char_of (n + 32) else ch)"

definition is_alpha :: "char \<Rightarrow> bool" where
  "is_alpha ch = (let n = (of_char ch :: nat) in (65 \<le> n \<and> n \<le> 90) \<or> (97 \<le> n \<and> n \<le> 122))"

fun title_from :: "bool \<Rightarrow> string \<Rightarrow> string" where
  "title_from prev_cased [] = []"
| "title_from prev_cased (ch # cs) =
     (if is_alpha ch
      then (if prev_cased then lower_char ch else upper_char ch) # title_from True cs
      else ch # title_from False cs)"

fun example_normal_form :: "pyval \<Rightarrow> py_error + pyval" where
  "example_normal_form (PStr s) =
     Inr (PStr (title_from False (map (\<lambda>ch. if ch = CHR ''_'' then CHR '' '' else ch) s)))"
| "example_normal_form v = Inl AttributeError"

definition example_attrs_names :: "string list" where
  "example_attrs_names =
     [''type'', ''id'', ''title'', ''href'', ''url'', ''email'', ''authorizations'',
      ''ca_type'', ''definition_type'', ''helptext'', ''placeholder'',
      ''multi_choice_options'', ''is_mandatory'', ''ca_global'', ''manager'',
      ''primary_contact'', ''code'', ''state'', ''last_update'', ''owner'', ''program'',
      ''audit_lead'', ''status'', ''audit'', ''asmt_objects'', ''def_assessors'',
      ''def_verifiers'', ''object'', ''creators'', ''assignees'', ''is_verified'']"

definition example_constants :: constants where
  "example_constants =
     \<lparr> all_objs_attrs_names = example_attrs_names,
       SPECIAL = ''!#$%'',
       DEFAULT_EMAIL_DOMAIN = ''example.com'',
       DEFAULT_USER = PStr ''Example User'',
       NO_ROLE = PStr ''No role'',
       OBJECT_OWNERS = PStr ''Object Owners'',
       CONTROLS = PStr ''controls'',
       ObjectStates_DRAFT = PStr ''Draft'',
       AuditStates_PLANNED = PStr ''Planned'',
       AssessmentStates_NOT_STARTED = PStr ''Not Started'',
       Common_FALSE = PStr ''false'',
       IssueStates_DRAFT = PStr ''Draft'',
       ALL_ATTRS_TYPES = [''Text'', ''Rich Text'', ''Date'', ''Checkbox'', ''Dropdown'', ''Person''],
       TEXT = ''Text'',
       RICH_TEXT = ''Rich Text'',
       DROPDOWN = ''Dropdown'',
       ALL_CA_OBJECTS = [''programs'', ''controls'', ''org_groups''],
       get_normal_form = example_normal_form,
       new_entity = (\<lambda>cls. map_of (map (\<lambda>n. (n, PNone)) example_attrs_names)) \<rparr>"

definition example_rng :: rng where
  "example_rng = \<lparr> choices = (\<lambda>i. 7 * i + 4), tokens = (\<lambda>i. ''tok'' @ str_nat i) \<rparr>"

text \<open>An audit and an assessment template as the application returns them, with id 5.\<close>

definition example_audit :: entity where
  "example_audit =
     [''type'' \<mapsto> PStr ''audit'', ''id'' \<mapsto> PInt 5, ''title'' \<mapsto> PStr ''A'',
      ''href'' \<mapsto> PStr ''/api/audits/5'', ''url'' \<mapsto> PStr ''audits/5'',
      ''code'' \<mapsto> PStr ''AUDIT-5'', ''status'' \<mapsto> PStr ''Planned'']"

definition example_asmt_tmpl :: entity where
  "example_asmt_tmpl =
     [''type'' \<mapsto> PStr ''assessment_template'', ''id'' \<mapsto> PInt 5, ''title'' \<mapsto> PStr ''T'',
      ''href'' \<mapsto> PStr ''/api/assessment_templates/5'', ''url'' \<mapsto> PStr ''assessment_templates/5'',
      ''code'' \<mapsto> PStr ''TEMPLATE-5'']"

text \<open>Two controls.\<close>

definition example_control_a :: entity where
  "example_control_a = [''type'' \<mapsto> PStr ''control'', ''id'' \<mapsto> PInt 1, ''title'' \<mapsto> PStr ''a'']"

definition example_control_b :: entity where
  "example_control_b = [''type'' \<mapsto> PStr ''control'', ''id'' \<mapsto> PInt 2, ''title'' \<mapsto> PStr ''b'']"

text \<open>What a test reads off a result: the returned references and, for each of them, the
  values of the named attributes.\<close>

definition observe_one :: "py_error + (ref \<times> store \<times> rng) \<Rightarrow> string list \<Rightarrow> py_error + (ref \<times> pyval option list)" where
  "observe_one res names =
     (case res of Inl e \<Rightarrow> Inl e | Inr (r, s, g) \<Rightarrow> Inr (r, map (s ! r) names))"

definition observe_clones :: "py_error + (ref list option \<times> store) \<Rightarrow> string list \<Rightarrow> py_error + (ref \<times> pyval option list) list option" where
  "observe_clones res names =
     (case res of
        Inl e \<Rightarrow> Inl e
      | Inr (None, s) \<Rightarrow> Inr None
      | Inr (Some rs, s) \<Rightarrow> Inr (Some (map (\<lambda>r. (r, map (s ! r) names)) rs)))"

section \<open>Properties of update_obj_attrs_values\<close>

lemma length_setattr [simp]: "length (setattr s r a v) = length s"
  by (simp add: setattr_def)

lemma setattr_other [simp]: "r' \<noteq> r \<Longrightarrow> setattr s r a v ! r' = s ! r'"
  by (simp add: setattr_def)

lemma setattr_same [simp]: "r < length s \<Longrightarrow> setattr s r a v ! r = (s ! r)(a \<mapsto> v)"
  by (simp add: setattr_def)

lemma length_update_loop [simp]: "length (update_loop s obj names arguments) = length s"
  by (induction names arbitrary: s) (auto split: option.splits)

lemma update_loop_other [simp]:
  "r' \<noteq> obj \<Longrightarrow> update_loop s obj names arguments ! r' = s ! r'"
  by (induction names arbitrary: s) (auto split: option.splits)

lemma update_loop_same:
  "obj < length s \<Longrightarrow>
   (update_loop s obj names arguments ! obj) a =
     (case arguments a of
        None \<Rightarrow> (s ! obj) a
      | Some v \<Rightarrow> if a \<in> set names \<and> truthy v then Some v else (s ! obj) a)"
proof (induction names arbitrary: s)
  case Nil
  then show ?case by (simp split: option.splits)
next
  case (Cons n names)
  show ?case
  proof (cases "arguments n")
    case None
    with Cons show ?thesis by (auto split: option.splits)
  next
    case (Some w)
    show ?thesis
    proof (cases "truthy w")
      case False
      with Some Cons show ?thesis by (auto split: option.splits)
    next
      case True
      have "obj < length (setattr s obj n w)" using Cons.prems by simp
      from Cons.IH [OF this] Some True Cons.prems show ?thesis
        by (auto split: option.splits)
    qed
  qed
qed

text \<open>
  C1. For every store, entity and override map, \<open>update_obj_attrs_values\<close> returns the
  reference it was given; afterwards an attribute of that entity holds the override value
  exactly when its name is in the allow-list and the override is present and truthy, and
  holds its previous value otherwise (absent override, falsy override, or a name outside
  the override keys); no other object of the store is changed.
\<close>

theorem update_obj_attrs_values_frame:
  assumes "obj < length s"
    and "update_obj_attrs_values s obj attrs_names arguments = (obj', s')"
  shows "obj' = obj
    \<and> length s' = length s
    \<and> (\<forall>r. r \<noteq> obj \<longrightarrow> s' ! r = s ! r)
    \<and> (\<forall>a v. a \<in> set attrs_names \<and> arguments a = Some v \<and> truthy v
           \<longrightarrow> (s' ! obj) a = Some v)
    \<and> (\<forall>a. (arguments a = None \<or> (\<exists>v. arguments a = Some v \<and> \<not> truthy v))
           \<longrightarrow> (s' ! obj) a = (s ! obj) a)
    \<and> (\<forall>a. a \<notin> dom arguments \<longrightarrow> (s' ! obj) a = (s ! obj) a)
    \<and> (\<forall>a. a \<notin> set attrs_names \<longrightarrow> (s' ! obj) a = (s ! obj) a)"
proof -
  from assms(2) have o: "obj' = obj" and s': "s' = update_loop s obj attrs_names arguments"
    by (auto simp: update_obj_attrs_values_def)
  have 1: "\<forall>r. r \<noteq> obj \<longrightarrow> s' ! r = s ! r" by (simp add: s')
  have 2: "\<forall>a v. a \<in> set attrs_names \<and> arguments a = Some v \<and> truthy v
           \<longrightarrow> (s' ! obj) a = Some v"
    by (simp add: s' update_loop_same [OF assms(1)])
  have 3: "\<forall>a. (arguments a = None \<or> (\<exists>v. arguments a = Some v \<and> \<not> truthy v))
           \<longrightarrow> (s' ! obj) a = (s ! obj) a"
    by (auto simp: s' update_loop_same [OF assms(1)])
  have 4: "\<forall>a. a \<notin> dom arguments \<longrightarrow> (s' ! obj) a = (s ! obj) a"
    by (auto simp: s' update_loop_same [OF assms(1)] dom_def)
  have 5: "\<forall>a. a \<notin> set attrs_names \<longrightarrow> (s' ! obj) a = (s ! obj) a"
    by (auto simp: s' update_loop_same [OF assms(1)] split: option.splits)
  have 0: "length s' = length s" by (simp add: s')
  from o 0 1 2 3 4 5 show ?thesis by blast
qed

theorem update_obj_attrs_values_frame_witness:
  "0 < length [[''title'' \<mapsto> PStr ''old'', ''id'' \<mapsto> PInt 7]] \<and>
   fst (update_obj_attrs_values [[''title'' \<mapsto> PStr ''old'', ''id'' \<mapsto> PInt 7]] 0
          [''title'', ''id''] [''title'' \<mapsto> PStr ''new'', ''id'' \<mapsto> PInt 0, ''code'' \<mapsto> PStr ''X'']) = 0 \<and>
   (snd (update_obj_attrs_values [[''title'' \<mapsto> PStr ''old'', ''id'' \<mapsto> PInt 7]] 0
          [''title'', ''id''] [''title'' \<mapsto> PStr ''new'', ''id'' \<mapsto> PInt 0, ''code'' \<mapsto> PStr ''X'']) ! 0) ''title''
     = Some (PStr ''new'') \<and>
   (snd (update_obj_attrs_values [[''title'' \<mapsto> PStr ''old'', ''id'' \<mapsto> PInt 7]] 0
          [''title'', ''id''] [''title'' \<mapsto> PStr ''new'', ''id'' \<mapsto> PInt 0, ''code'' \<mapsto> PStr ''X'']) ! 0) ''id''
     = Some (PInt 7) \<and>
   (snd (update_obj_attrs_values [[''title'' \<mapsto> PStr ''old'', ''id'' \<mapsto> PInt 7]] 0
          [''title'', ''id''] [''title'' \<mapsto> PStr ''new'', ''id'' \<mapsto> PInt 0, ''code'' \<mapsto> PStr ''X'']) ! 0) ''code''
     = None"
proof -
  let ?s = "[[''title'' \<mapsto> PStr ''old'', ''id'' \<mapsto> PInt 7]]"
  let ?n = "[''title'', ''id'']"
  let ?a = "[''title'' \<mapsto> PStr ''new'', ''id'' \<mapsto> PInt 0, ''code'' \<mapsto> PStr ''X'']"
  let ?r = "update_obj_attrs_values ?s 0 ?n ?a"
  have h1: "0 < length ?s" by simp
  have h2: "?r = (fst ?r, snd ?r)" by simp
  note t = update_obj_attrs_values_frame [OF h1 h2]
  from t have r0: "fst ?r = 0" by blast
  from t have "\<forall>a v. a \<in> set ?n \<and> ?a a = Some v \<and> truthy v \<longrightarrow> (snd ?r ! 0) a = Some v"
    by blast
  then have "''title'' \<in> set ?n \<and> ?a ''title'' = Some (PStr ''new'') \<and> truthy (PStr ''new'')
      \<longrightarrow> (snd ?r ! 0) ''title'' = Some (PStr ''new'')" by blast
  then have r1: "(snd ?r ! 0) ''title'' = Some (PStr ''new'')" by simp
  from t have "\<forall>a. (?a a = None \<or> (\<exists>v. ?a a = Some v \<and> \<not> truthy v))
           \<longrightarrow> (snd ?r ! 0) a = (?s ! 0) a" by blast
  then have "(?a ''id'' = None \<or> (\<exists>v. ?a ''id'' = Some v \<and> \<not> truthy v))
           \<longrightarrow> (snd ?r ! 0) ''id'' = (?s ! 0) ''id''" by blast
  then have r2: "(snd ?r ! 0) ''id'' = Some (PInt 7)" by simp
  from t have "\<forall>a. a \<notin> set ?n \<longrightarrow> (snd ?r ! 0) a = (?s ! 0) a" by blast
  then have "''code'' \<notin> set ?n \<longrightarrow> (snd ?r ! 0) ''code'' = (?s ! 0) ''code''" by blast
  then have r3: "(snd ?r ! 0) ''code'' = None" by simp
  from h1 r0 r1 r2 r3 show ?thesis by blast
qed

section \<open>Sequencing, allocation and comprehensions\<close>

lemma rbind_Inr_iff: "rbind m f = Inr y \<longleftrightarrow> (\<exists>x. m = Inr x \<and> f x = Inr y)"
  by (cases m) (simp_all add: rbind_def)

lemma rbind_Inr [simp]: "rbind (Inr x) f = f x"
  by (simp add: rbind_def)

lemma rbind_Inl [simp]: "rbind (Inl e) f = Inl e"
  by (simp add: rbind_def)

lemma update_loop_append:
  "\<exists>e'. update_loop (s @ [e]) (length s) names arguments = s @ [e'] \<and>
     (\<forall>a. e' a = (case arguments a of
                    None \<Rightarrow> e a
                  | Some v \<Rightarrow> if a \<in> set names \<and> truthy v then Some v else e a))"
proof -
  let ?s' = "update_loop (s @ [e]) (length s) names arguments"
  have len: "length ?s' = Suc (length s)" by simp
  have old: "\<forall>r < length s. ?s' ! r = s ! r"
    by (simp add: nth_append)
  have "?s' = s @ [?s' ! length s]"
  proof (rule nth_equalityI)
    show "length ?s' = length (s @ [?s' ! length s])" using len by simp
  next
    fix i assume "i < length ?s'"
    then have "i < length s \<or> i = length s" using len by auto
    then show "?s' ! i = (s @ [?s' ! length s]) ! i"
      using old by (auto simp: nth_append)
  qed
  moreover have "\<forall>a. (?s' ! length s) a = (case arguments a of
                    None \<Rightarrow> e a
                  | Some v \<Rightarrow> if a \<in> set names \<and> truthy v then Some v else e a)"
    using update_loop_same [of "length s" "s @ [e]" names arguments]
    by (simp split: option.splits)
  ultimately show ?thesis by blast
qed

lemma list_comp_alloc:
  assumes step: "\<And>st x. \<exists>t. p st = s0 @ t \<Longrightarrow> x \<in> set xs \<Longrightarrow>
            \<exists>e st'. f st x = Inr (length (p st), st') \<and> p st' = p st @ [e] \<and> Q x e"
    and pre: "\<exists>t. p st = s0 @ t"
  shows "\<exists>rs st' es. list_comp f st xs = Inr (rs, st') \<and> length rs = length xs \<and>
           p st' = p st @ es \<and> length es = length xs \<and>
           (\<forall>j<length xs. rs ! j = length (p st) + j \<and> Q (xs ! j) (es ! j))"
  using assms
proof (induction xs arbitrary: st)
  case Nil
  then show ?case by simp
next
  case (Cons x xs)
  from Cons.prems(1) [OF Cons.prems(2), of x]
  obtain e st1 where f: "f st x = Inr (length (p st), st1)" and p1: "p st1 = p st @ [e]"
    and q: "Q x e" by auto
  from Cons.prems(2) p1 have pre1: "\<exists>t. p st1 = s0 @ t" by auto
  have "\<exists>rs st' es. list_comp f st1 xs = Inr (rs, st') \<and> length rs = length xs \<and>
           p st' = p st1 @ es \<and> length es = length xs \<and>
           (\<forall>j<length xs. rs ! j = length (p st1) + j \<and> Q (xs ! j) (es ! j))"
  proof (rule Cons.IH [OF _ pre1])
    fix st' y assume "\<exists>t. p st' = s0 @ t" and "y \<in> set xs"
    then show "\<exists>e st''. f st' y = Inr (length (p st'), st'') \<and> p st'' = p st' @ [e] \<and> Q y e"
      using Cons.prems(1) [of st' y] by simp
  qed
  then obtain rs st2 es where lc: "list_comp f st1 xs = Inr (rs, st2)"
    and lr: "length rs = length xs" and p2: "p st2 = p st1 @ es" and le: "length es = length xs"
    and all: "\<forall>j<length xs. rs ! j = length (p st1) + j \<and> Q (xs ! j) (es ! j)" by blast
  have 1: "list_comp f st (x # xs) = Inr (length (p st) # rs, st2)"
    using f lc by simp
  have 2: "p st2 = p st @ (e # es)" using p1 p2 by simp
  have 3: "\<forall>j<length (x # xs). (length (p st) # rs) ! j = length (p st) + j \<and>
              Q ((x # xs) ! j) ((e # es) ! j)"
  proof (intro allI impI)
    fix j assume "j < length (x # xs)"
    then show "(length (p st) # rs) ! j = length (p st) + j \<and> Q ((x # xs) ! j) ((e # es) ! j)"
      using all q p1 by (cases j) auto
  qed
  from 1 2 3 lr le show ?case by (intro exI [of _ "length (p st) # rs"] exI [of _ st2] exI [of _ "e # es"]) simp
qed

section \<open>The clone guard and the generated title\<close>

text \<open>
  C2. For a source entity whose id is the integer N and a count-service answer T, both
  \<open>clone\<close> methods return clones only when T equals N; when T differs from N they return
  \<^verbatim>\<open>None\<close>, raise nothing and leave the whole store, the source entity included, as it was.
\<close>

theorem clone_guard:
  assumes "(s ! src) ''id'' = Some (PInt N)"
  shows "(T \<noteq> N \<longrightarrow>
            AuditsFactory_clone c T s src k = Inr (None, s) \<and>
            AssessmentTemplatesFactory_clone c T s src k = Inr (None, s))
       \<and> (\<forall>objs s'. AuditsFactory_clone c T s src k = Inr (Some objs, s') \<longrightarrow> T = N)
       \<and> (\<forall>objs s'. AssessmentTemplatesFactory_clone c T s src k = Inr (Some objs, s') \<longrightarrow> T = N)"
  using assms
  by (auto simp: AuditsFactory_clone_def AssessmentTemplatesFactory_clone_def getattr_def
           split: if_splits)

theorem clone_guard_witness:
  "([[''id'' \<mapsto> PInt 5, ''title'' \<mapsto> PStr ''a'']] ! 0) ''id'' = Some (PInt 5) \<and>
   AuditsFactory_clone example_constants 6 [[''id'' \<mapsto> PInt 5, ''title'' \<mapsto> PStr ''a'']] 0 3
     = Inr (None, [[''id'' \<mapsto> PInt 5, ''title'' \<mapsto> PStr ''a'']]) \<and>
   AssessmentTemplatesFactory_clone example_constants 6 [[''id'' \<mapsto> PInt 5, ''title'' \<mapsto> PStr ''a'']] 0 3
     = Inr (None, [[''id'' \<mapsto> PInt 5, ''title'' \<mapsto> PStr ''a'']])"
proof -
  have h: "([[''id'' \<mapsto> PInt 5, ''title'' \<mapsto> PStr ''a'']] ! 0) ''id'' = Some (PInt 5)" by simp
  from clone_guard [OF h, of 6 example_constants 3] h show ?thesis by simp
qed

lemma random_string_total:
  "n = 0 \<or> chars \<noteq> [] \<Longrightarrow>
   \<exists>cs g'. random_string n chars g = Inr (cs, g') \<and> length cs = n \<and> set cs \<subseteq> set chars"
proof (induction n arbitrary: g)
  case 0
  then show ?case by simp
next
  case (Suc n)
  then have ne: "chars \<noteq> []" by simp
  let ?g1 = "g\<lparr>choices := \<lambda>i. choices g (Suc i)\<rparr>"
  let ?ch = "chars ! (choices g 0 mod length chars)"
  have rc: "random_choice chars g = Inr (?ch, ?g1)" using ne by (simp add: random_choice_def)
  have mem: "?ch \<in> set chars" using ne by simp
  from Suc.IH [of ?g1] ne obtain cs g' where
    "random_string n chars ?g1 = Inr (cs, g')" "length cs = n" "set cs \<subseteq> set chars" by blast
  with rc mem show ?case by simp
qed

lemma generate_title_result:
  "\<exists>suffix g'. generate_title c obj_type g =
       Inr (py_str obj_type @ ''_'' @ tokens g 0 @ ''_'' @ suffix, g') \<and>
     length suffix = length (SPECIAL c) \<and> set suffix \<subseteq> set (SPECIAL c)"
proof -
  let ?g1 = "g\<lparr>tokens := \<lambda>i. tokens g (Suc i)\<rparr>"
  have "length (SPECIAL c) = 0 \<or> SPECIAL c \<noteq> []" by auto
  from random_string_total [OF this, of ?g1] obtain cs g' where
    "random_string (length (SPECIAL c)) (SPECIAL c) ?g1 = Inr (cs, g')"
    "length cs = length (SPECIAL c)" "set cs \<subseteq> set (SPECIAL c)" by blast
  then show ?thesis by (simp add: generate_title_def random_uuid_def)
qed

text \<open>
  C9. For every object type tag, \<open>_generate_title\<close> returns the tag, an underscore, the
  random unique token, an underscore and a suffix; the suffix consists of characters of
  the special-character alphabet and is as long as that alphabet. A tag that is a string
  appears as it is.
\<close>

theorem generate_title_shape:
  "\<exists>uuid suffix g'.
     generate_title c (PStr obj_type) g = Inr (obj_type @ ''_'' @ uuid @ ''_'' @ suffix, g') \<and>
     uuid = fst (random_uuid g) \<and>
     length suffix = length (SPECIAL c) \<and> set suffix \<subseteq> set (SPECIAL c)"
  using generate_title_result [of c "PStr obj_type" g] by (auto simp: random_uuid_def)

theorem generate_title_shape_witness:
  "\<exists>uuid suffix g'.
     generate_title example_constants (PStr ''audit'') example_rng =
       Inr (''audit_'' @ uuid @ ''_'' @ suffix, g') \<and>
     uuid = ''tok0'' \<and> length suffix = 4 \<and> set suffix \<subseteq> set ''!#$%''"
proof -
  have "fst (random_uuid example_rng) = ''tok0''" by code_simp
  moreover have "SPECIAL example_constants = ''!#$%''" by (simp add: example_constants_def)
  ultimately show ?thesis
    using generate_title_shape [of example_constants "''audit''" example_rng]
    by (simp add: eval_nat_numeral)
qed

section \<open>The create methods\<close>

lemma bind_kwargs_no_overrides:
  "\<exists>arguments. bind_kwargs (map (\<lambda>p. (p, PNone)) names) [] = Inr arguments \<and>
     (\<forall>a v. arguments a = Some v \<longrightarrow> v = PNone)"
proof -
  have "\<forall>a v. map_of (map (\<lambda>pd. (fst pd, case map_of [] (fst pd) of None \<Rightarrow> snd pd | Some v \<Rightarrow> v))
                     (map (\<lambda>p. (p, PNone)) names)) a = Some v \<longrightarrow> v = PNone"
    by (auto dest!: map_of_SomeD)
  then show ?thesis by (simp add: bind_kwargs_def)
qed

lemma create_with_result:
  assumes "bind_kwargs params kwargs = Inr arguments"
    and "create_random s g = Inr (length s, s @ [e], g1)"
  shows "\<exists>e'. create_with params create_random c s g kwargs = Inr (length s, s @ [e'], g1) \<and>
     (\<forall>a. e' a = (case arguments a of
                    None \<Rightarrow> e a
                  | Some v \<Rightarrow> if a \<in> set (all_objs_attrs_names c) \<and> truthy v then Some v else e a))"
  using assms update_loop_append [of s e "all_objs_attrs_names c" arguments]
  by (auto simp: create_with_def update_obj_attrs_values_def)

lemma create_with_no_overrides:
  assumes "create_random s g = Inr (length s, s @ [e], g1)"
  shows "create_with (map (\<lambda>p. (p, PNone)) names) create_random c s g [] = Inr (length s, s @ [e], g1)"
proof -
  from bind_kwargs_no_overrides [of names] obtain arguments where
    b: "bind_kwargs (map (\<lambda>p. (p, PNone)) names) [] = Inr arguments"
    and n: "\<forall>a v. arguments a = Some v \<longrightarrow> v = PNone" by blast
  from create_with_result [where create_random = create_random and s = s and g = g, OF b assms, of c] obtain e' where
    r: "create_with (map (\<lambda>p. (p, PNone)) names) create_random c s g [] = Inr (length s, s @ [e'], g1)"
    and e': "\<forall>a. e' a = (case arguments a of
                    None \<Rightarrow> e a
                  | Some v \<Rightarrow> if a \<in> set (all_objs_attrs_names c) \<and> truthy v then Some v else e a)"
    by blast
  have "e' = e"
  proof
    fix a
    show "e' a = e a"
    proof (cases "arguments a")
      case None
      with e' show ?thesis by simp
    next
      case (Some v)
      with n have "v = PNone" by blast
      with Some e' show ?thesis by simp
    qed
  qed
  with r show ?thesis by simp
qed

lemma alloc_setattr [simp]:
  "setattr (s @ [e]) (length s) a v = s @ [e(a \<mapsto> v)]"
  by (simp add: setattr_def)

lemma create_random_person_result:
  "\<exists>e g1. create_random_person c s g = Inr (length s, s @ [e], g1) \<and>
     e ''type'' = Some (PStr obj_person)"
  using generate_title_result [of c "PStr obj_person" g]
  by (auto simp: create_random_person_def alloc_def generate_email_def random_uuid_def
      split: prod.splits)

lemma create_random_program_result:
  "\<exists>e g1. create_random_program c s g = Inr (length s, s @ [e], g1) \<and>
     e ''type'' = Some (PStr obj_program)"
  using generate_title_result [of c "PStr obj_program" g]
  by (auto simp: create_random_program_def alloc_def generate_code_def random_uuid_def
      split: prod.splits)

lemma create_random_control_result:
  "\<exists>e g1. create_random_control c s g = Inr (length s, s @ [e], g1) \<and>
     e ''type'' = Some (PStr obj_control)"
  using generate_title_result [of c "PStr obj_control" g]
  by (auto simp: create_random_control_def alloc_def generate_code_def random_uuid_def
      split: prod.splits)

lemma create_random_audit_result:
  "\<exists>e g1. create_random_audit c s g = Inr (length s, s @ [e], g1) \<and>
     e ''type'' = Some (PStr obj_audit)"
  using generate_title_result [of c "PStr obj_audit" g]
  by (auto simp: create_random_audit_def alloc_def generate_code_def random_uuid_def
      split: prod.splits)

lemma create_random_asmt_tmpl_result:
  "\<exists>e g1. create_random_asmt_tmpl c s g = Inr (length s, s @ [e], g1) \<and>
     e ''type'' = Some (PStr obj_asmt_tmpl)"
  using generate_title_result [of c "PStr obj_asmt_tmpl" g]
  by (auto simp: create_random_asmt_tmpl_def alloc_def generate_code_def random_uuid_def
      split: prod.splits)

lemma create_random_asmt_result:
  "\<exists>e g1. create_random_asmt c s g = Inr (length s, s @ [e], g1) \<and>
     e ''type'' = Some (PStr obj_asmt) \<and>
     e ''audit'' = new_entity c ''AssessmentEntity'' ''audit''"
  using generate_title_result [of c "PStr obj_asmt" g]
  by (auto simp: create_random_asmt_def alloc_def generate_code_def random_uuid_def
      split: prod.splits)

lemma create_random_issue_result:
  "\<exists>e g1. create_random_issue c s g = Inr (length s, s @ [e], g1) \<and>
     e ''type'' = Some (PStr obj_issue)"
  using generate_title_result [of c "PStr obj_issue" g]
  by (auto simp: create_random_issue_def alloc_def generate_code_def random_uuid_def
      split: prod.splits)

lemma create_no_overrides_type:
  assumes "\<exists>e g1. create_random s g = Inr (length s, s @ [e], g1) \<and> e ''type'' = Some v"
  shows "\<exists>r s' g'. create_with (map (\<lambda>p. (p, PNone)) names) create_random c s g [] = Inr (r, s', g') \<and>
           (s' ! r) ''type'' = Some v"
proof -
  from assms obtain e g1 where r: "create_random s g = Inr (length s, s @ [e], g1)"
    and t: "e ''type'' = Some v" by blast
  from create_with_no_overrides [where create_random = create_random, OF r, of names c] t
  show ?thesis by (intro exI [of _ "length s"] exI [of _ "s @ [e]"] exI [of _ g1]) simp
qed

lemma PersonsFactory_create_type:
  "\<exists>r s' g'. PersonsFactory_create c s g [] = Inr (r, s', g') \<and>
       (s' ! r) ''type'' = Some (PStr obj_person)"
proof -
  have "\<exists>e g1. create_random_person c s g = Inr (length s, s @ [e], g1) \<and>
      e ''type'' = Some (PStr obj_person)"
    using create_random_person_result [of c s g] by blast
  then show ?thesis
    unfolding PersonsFactory_create_def person_params_def by (rule create_no_overrides_type)
qed

lemma ProgramsFactory_create_type:
  "\<exists>r s' g'. ProgramsFactory_create c s g [] = Inr (r, s', g') \<and>
       (s' ! r) ''type'' = Some (PStr obj_program)"
proof -
  have "\<exists>e g1. create_random_program c s g = Inr (length s, s @ [e], g1) \<and>
      e ''type'' = Some (PStr obj_program)"
    using create_random_program_result [of c s g] by blast
  then show ?thesis
    unfolding ProgramsFactory_create_def program_params_def by (rule create_no_overrides_type)
qed

lemma ControlsFactory_create_type:
  "\<exists>r s' g'. ControlsFactory_create c s g [] = Inr (r, s', g') \<and>
       (s' ! r) ''type'' = Some (PStr obj_control)"
proof -
  have "\<exists>e g1. create_random_control c s g = Inr (length s, s @ [e], g1) \<and>
      e ''type'' = Some (PStr obj_control)"
    using create_random_control_result [of c s g] by blast
  then show ?thesis
    unfolding ControlsFactory_create_def control_params_def by (rule create_no_overrides_type)
qed

lemma AuditsFactory_create_type:
  "\<exists>r s' g'. AuditsFactory_create c s g [] = Inr (r, s', g') \<and>
       (s' ! r) ''type'' = Some (PStr obj_audit)"
proof -
  have "\<exists>e g1. create_random_audit c s g = Inr (length s, s @ [e], g1) \<and>
      e ''type'' = Some (PStr obj_audit)"
    using create_random_audit_result [of c s g] by blast
  then show ?thesis
    unfolding AuditsFactory_create_def audit_params_def by (rule create_no_overrides_type)
qed

lemma AssessmentTemplatesFactory_create_type:
  "\<exists>r s' g'. AssessmentTemplatesFactory_create c s g [] = Inr (r, s', g') \<and>
       (s' ! r) ''type'' = Some (PStr obj_asmt_tmpl)"
proof -
  have "\<exists>e g1. create_random_asmt_tmpl c s g = Inr (length s, s @ [e], g1) \<and>
      e ''type'' = Some (PStr obj_asmt_tmpl)"
    using create_random_asmt_tmpl_result [of c s g] by blast
  then show ?thesis
    unfolding AssessmentTemplatesFactory_create_def asmt_tmpl_params_def by (rule create_no_overrides_type)
qed

lemma AssessmentsFactory_create_type:
  "\<exists>r s' g'. AssessmentsFactory_create c s g [] = Inr (r, s', g') \<and>
       (s' ! r) ''type'' = Some (PStr obj_asmt)"
proof -
  have "\<exists>e g1. create_random_asmt c s g = Inr (length s, s @ [e], g1) \<and>
      e ''type'' = Some (PStr obj_asmt)"
    using create_random_asmt_result [of c s g] by blast
  then show ?thesis
    unfolding AssessmentsFactory_create_def asmt_params_def by (rule create_no_overrides_type)
qed

lemma IssuesFactory_create_type:
  "\<exists>r s' g'. IssuesFactory_create c s g [] = Inr (r, s', g') \<and>
       (s' ! r) ''type'' = Some (PStr obj_issue)"
proof -
  have "\<exists>e g1. create_random_issue c s g = Inr (length s, s @ [e], g1) \<and>
      e ''type'' = Some (PStr obj_issue)"
    using create_random_issue_result [of c s g] by blast
  then show ?thesis
    unfolding IssuesFactory_create_def issue_params_def by (rule create_no_overrides_type)
qed

text \<open>
  C8. For each of the seven domain-type factories (Person, Program, Control, Audit,
  AssessmentTemplate, Assessment, Issue), \<open>create\<close> without overrides returns a new
  entity whose \<open>type\<close> attribute is the canonical singular name of the domain type.
\<close>

theorem create_sets_type:
  "(\<exists>r s' g'. PersonsFactory_create c s g [] = Inr (r, s', g') \<and>
       (s' ! r) ''type'' = Some (PStr obj_person))
   \<and> (\<exists>r s' g'. ProgramsFactory_create c s g [] = Inr (r, s', g') \<and>
       (s' ! r) ''type'' = Some (PStr obj_program))
   \<and> (\<exists>r s' g'. ControlsFactory_create c s g [] = Inr (r, s', g') \<and>
       (s' ! r) ''type'' = Some (PStr obj_control))
   \<and> (\<exists>r s' g'. AuditsFactory_create c s g [] = Inr (r, s', g') \<and>
       (s' ! r) ''type'' = Some (PStr obj_audit))
   \<and> (\<exists>r s' g'. AssessmentTemplatesFactory_create c s g [] = Inr (r, s', g') \<and>
       (s' ! r) ''type'' = Some (PStr obj_asmt_tmpl))
   \<and> (\<exists>r s' g'. AssessmentsFactory_create c s g [] = Inr (r, s', g') \<and>
       (s' ! r) ''type'' = Some (PStr obj_asmt))
   \<and> (\<exists>r s' g'. IssuesFactory_create c s g [] = Inr (r, s', g') \<and>
       (s' ! r) ''type'' = Some (PStr obj_issue))"
  by (intro conjI PersonsFactory_create_type ProgramsFactory_create_type
      ControlsFactory_create_type AuditsFactory_create_type
      AssessmentTemplatesFactory_create_type AssessmentsFactory_create_type
      IssuesFactory_create_type)

theorem create_sets_type_witness:
  "(\<exists>r s' g'. PersonsFactory_create example_constants [] example_rng [] = Inr (r, s', g') \<and>
       (s' ! r) ''type'' = Some (PStr ''person''))
   \<and> (\<exists>r s' g'. IssuesFactory_create example_constants [] example_rng [] = Inr (r, s', g') \<and>
       (s' ! r) ''type'' = Some (PStr ''issue''))"
  using create_sets_type [of example_constants "[]" example_rng]
  by (simp add: obj_person_def obj_issue_def)

lemma PersonsFactory_create_example:
  "(case PersonsFactory_create example_constants [] example_rng [] of
      Inl e \<Rightarrow> [] | Inr (r, s', g') \<Rightarrow> map (s' ! r) [''type'', ''title'', ''email'', ''id''])
   = [Some (PStr ''person''), Some (PStr ''person_tok0_!%$#''),
      Some (PStr ''tok1@example.com''), Some PNone]"
  by code_simp

section \<open>Properties of clone\<close>

lemma str_nat_nonempty [simp]: "str_nat n \<noteq> []"
  by (subst str_nat.simps) simp

lemma str_int_nonempty [simp]: "str_int i \<noteq> []"
  by (simp add: str_int_def)

lemma re_sub_digits_end_Nil:
  "repl \<noteq> [] \<Longrightarrow> re_sub_digits_end repl h = [] \<Longrightarrow> h = []"
  by (auto simp: re_sub_digits_end_def Let_def split: if_splits)

lemma upper_obj_audit: "upper obj_audit = ''AUDIT''"
  by code_simp

lemma upper_obj_asmt: "upper obj_asmt = ''ASSESSMENT''"
  by code_simp

lemma audit_clone_elem_result:
  assumes src: "src < length s"
    and title: "(s ! src) ''title'' = Some (PStr t)"
    and id: "(s ! src) ''id'' = Some (PInt N)"
    and href: "(s ! src) ''href'' = Some (PStr h)"
    and url: "(s ! src) ''url'' = Some (PStr u)"
    and names: "{''title'', ''id'', ''href'', ''url'', ''code''} \<subseteq> set (all_objs_attrs_names c)"
    and nz: "N + num \<noteq> 0"
  shows "\<exists>e. audit_clone_elem c src s num = Inr (length s, s @ [e]) \<and>
           e ''title'' = Some (PStr (t @ '' - copy '' @ str_int num)) \<and>
           e ''id'' = Some (PInt (N + num)) \<and>
           e ''href'' = Some (PStr (re_sub_digits_end (str_int (N + num)) h)) \<and>
           e ''url'' = Some (PStr (re_sub_digits_end (str_int (N + num)) u)) \<and>
           e ''code'' = Some (PStr (''AUDIT-'' @ str_int (N + num))) \<and>
           (\<forall>a. a \<notin> {''title'', ''id'', ''href'', ''url'', ''code''} \<longrightarrow> e a = (s ! src) a)"
proof -
  let ?args = "[''title'' \<mapsto> PStr ((t @ '' - copy '') @ str_int num),
                ''id'' \<mapsto> PInt (N + num),
                ''href'' \<mapsto> PStr (re_sub_digits_end (str_int (N + num)) h),
                ''url'' \<mapsto> PStr (re_sub_digits_end (str_int (N + num)) u),
                ''code'' \<mapsto> PStr (upper obj_audit @ ''-'' @ str_int (N + num))]"
  from update_loop_append [of s "s ! src" "all_objs_attrs_names c" ?args]
  obtain e where upd: "update_loop (s @ [s ! src]) (length s) (all_objs_attrs_names c) ?args = s @ [e]"
    and e: "\<And>a. e a = (case ?args a of None \<Rightarrow> (s ! src) a
              | Some v \<Rightarrow> if a \<in> set (all_objs_attrs_names c) \<and> truthy v then Some v else (s ! src) a)"
    by blast
  have run: "audit_clone_elem c src s num = Inr (length s, s @ [e])"
    using src title id href url upd
    by (simp add: audit_clone_elem_def deepcopy_def alloc_def getattr_def nth_append
        update_obj_attrs_values_def)
  have 1: "e ''title'' = Some (PStr (t @ '' - copy '' @ str_int num))"
    using names by (simp add: e)
  have 2: "e ''id'' = Some (PInt (N + num))"
    using names nz by (simp add: e)
  have 3: "e ''href'' = Some (PStr (re_sub_digits_end (str_int (N + num)) h))"
    using names href re_sub_digits_end_Nil [of "str_int (N + num)" h] by (auto simp: e)
  have 4: "e ''url'' = Some (PStr (re_sub_digits_end (str_int (N + num)) u))"
    using names url re_sub_digits_end_Nil [of "str_int (N + num)" u] by (auto simp: e)
  have 5: "e ''code'' = Some (PStr (''AUDIT-'' @ str_int (N + num)))"
    using names by (simp add: e upper_obj_audit)
  have 6: "\<forall>a. a \<notin> {''title'', ''id'', ''href'', ''url'', ''code''} \<longrightarrow> e a = (s ! src) a"
    by (simp add: e)
  from run 1 2 3 4 5 6 show ?thesis by blast
qed

lemma asmt_tmpl_clone_elem_result:
  assumes src: "src < length s"
    and id: "(s ! src) ''id'' = Some (PInt N)"
    and href: "(s ! src) ''href'' = Some (PStr h)"
    and url: "(s ! src) ''url'' = Some (PStr u)"
    and names: "{''id'', ''href'', ''url'', ''code''} \<subseteq> set (all_objs_attrs_names c)"
    and nz: "N + num \<noteq> 0"
  shows "\<exists>e. asmt_tmpl_clone_elem c src s num = Inr (length s, s @ [e]) \<and>
           e ''id'' = Some (PInt (N + num)) \<and>
           e ''href'' = Some (PStr (re_sub_digits_end (str_int (N + num)) h)) \<and>
           e ''url'' = Some (PStr (re_sub_digits_end (str_int (N + num)) u)) \<and>
           e ''code'' = Some (PStr (''TEMPLATE-'' @ str_int (N + num))) \<and>
           (\<forall>a. a \<notin> {''id'', ''href'', ''url'', ''code''} \<longrightarrow> e a = (s ! src) a)"
proof -
  let ?args = "[''id'' \<mapsto> PInt (N + num),
                ''href'' \<mapsto> PStr (re_sub_digits_end (str_int (N + num)) h),
                ''url'' \<mapsto> PStr (re_sub_digits_end (str_int (N + num)) u),
                ''code'' \<mapsto> PStr (''TEMPLATE-'' @ str_int (N + num))]"
  from update_loop_append [of s "s ! src" "all_objs_attrs_names c" ?args]
  obtain e where upd: "update_loop (s @ [s ! src]) (length s) (all_objs_attrs_names c) ?args = s @ [e]"
    and e: "\<And>a. e a = (case ?args a of None \<Rightarrow> (s ! src) a
              | Some v \<Rightarrow> if a \<in> set (all_objs_attrs_names c) \<and> truthy v then Some v else (s ! src) a)"
    by blast
  have run: "asmt_tmpl_clone_elem c src s num = Inr (length s, s @ [e])"
    using src id href url upd
    by (simp add: asmt_tmpl_clone_elem_def deepcopy_def alloc_def getattr_def nth_append
        update_obj_attrs_values_def)
  have 2: "e ''id'' = Some (PInt (N + num))"
    using names nz by (simp add: e)
  have 3: "e ''href'' = Some (PStr (re_sub_digits_end (str_int (N + num)) h))"
    using names href re_sub_digits_end_Nil [of "str_int (N + num)" h] by (auto simp: e)
  have 4: "e ''url'' = Some (PStr (re_sub_digits_end (str_int (N + num)) u))"
    using names url re_sub_digits_end_Nil [of "str_int (N + num)" u] by (auto simp: e)
  have 5: "e ''code'' = Some (PStr (''TEMPLATE-'' @ str_int (N + num)))"
    using names by (simp add: e)
  have 6: "\<forall>a. a \<notin> {''id'', ''href'', ''url'', ''code''} \<longrightarrow> e a = (s ! src) a"
    by (simp add: e)
  from run 2 3 4 5 6 show ?thesis by blast
qed

text \<open>The comprehension of \<open>AuditsFactory.clone\<close> over any list of positive numbers.\<close>

lemma audit_clone_loop:
  assumes src: "src < length s"
    and title: "(s ! src) ''title'' = Some (PStr t)"
    and id: "(s ! src) ''id'' = Some (PInt N)" and N: "0 \<le> N"
    and href: "(s ! src) ''href'' = Some (PStr h)"
    and url: "(s ! src) ''url'' = Some (PStr u)"
    and names: "{''title'', ''id'', ''href'', ''url'', ''code''} \<subseteq> set (all_objs_attrs_names c)"
    and pos: "\<forall>n \<in> set nums. 1 \<le> n"
  shows "\<exists>objs es. list_comp (audit_clone_elem c src) s nums = Inr (objs, s @ es) \<and>
           length objs = length nums \<and> length es = length nums \<and>
           (\<forall>j<length nums. objs ! j = length s + j \<and>
              (es ! j) ''title'' = Some (PStr (t @ '' - copy '' @ str_int (nums ! j))) \<and>
              (es ! j) ''id'' = Some (PInt (N + nums ! j)) \<and>
              (es ! j) ''href'' = Some (PStr (re_sub_digits_end (str_int (N + nums ! j)) h)) \<and>
              (es ! j) ''url'' = Some (PStr (re_sub_digits_end (str_int (N + nums ! j)) u)) \<and>
              (es ! j) ''code'' = Some (PStr (''AUDIT-'' @ str_int (N + nums ! j))) \<and>
              (\<forall>a. a \<notin> {''title'', ''id'', ''href'', ''url'', ''code''} \<longrightarrow> (es ! j) a = (s ! src) a))"
proof -
  let ?Q = "\<lambda>num e.
              e ''title'' = Some (PStr (t @ '' - copy '' @ str_int num)) \<and>
              e ''id'' = Some (PInt (N + num)) \<and>
              e ''href'' = Some (PStr (re_sub_digits_end (str_int (N + num)) h)) \<and>
              e ''url'' = Some (PStr (re_sub_digits_end (str_int (N + num)) u)) \<and>
              e ''code'' = Some (PStr (''AUDIT-'' @ str_int (N + num))) \<and>
              (\<forall>a. a \<notin> {''title'', ''id'', ''href'', ''url'', ''code''} \<longrightarrow> e a = (s ! src) a)"
  have step: "\<exists>e st'. audit_clone_elem c src st x = Inr (length st, st') \<and> st' = st @ [e] \<and> ?Q x e"
    if "\<exists>t. st = s @ t" and "x \<in> set nums" for st x
  proof -
    from that(1) obtain t' where st: "st = s @ t'" by blast
    have same: "st ! src = s ! src" using src st by (simp add: nth_append)
    have "src < length st" using src st by simp
    moreover have "N + x \<noteq> 0" using pos that(2) N by fastforce
    ultimately show ?thesis
      using audit_clone_elem_result [of src st t N h u c x] title id href url names same
      by auto
  qed
  have "\<exists>rs st' es. list_comp (audit_clone_elem c src) s nums = Inr (rs, st') \<and>
           length rs = length nums \<and> st' = s @ es \<and> length es = length nums \<and>
           (\<forall>j<length nums. rs ! j = length s + j \<and> ?Q (nums ! j) (es ! j))"
    by (rule list_comp_alloc [where p = "\<lambda>st. st" and ?s0.0 = s and Q = ?Q]) (use step in auto)
  then show ?thesis by blast
qed

lemma asmt_tmpl_clone_loop:
  assumes src: "src < length s"
    and id: "(s ! src) ''id'' = Some (PInt N)" and N: "0 \<le> N"
    and href: "(s ! src) ''href'' = Some (PStr h)"
    and url: "(s ! src) ''url'' = Some (PStr u)"
    and names: "{''id'', ''href'', ''url'', ''code''} \<subseteq> set (all_objs_attrs_names c)"
    and pos: "\<forall>n \<in> set nums. 1 \<le> n"
  shows "\<exists>objs es. list_comp (asmt_tmpl_clone_elem c src) s nums = Inr (objs, s @ es) \<and>
           length objs = length nums \<and> length es = length nums \<and>
           (\<forall>j<length nums. objs ! j = length s + j \<and>
              (es ! j) ''id'' = Some (PInt (N + nums ! j)) \<and>
              (es ! j) ''href'' = Some (PStr (re_sub_digits_end (str_int (N + nums ! j)) h)) \<and>
              (es ! j) ''url'' = Some (PStr (re_sub_digits_end (str_int (N + nums ! j)) u)) \<and>
              (es ! j) ''code'' = Some (PStr (''TEMPLATE-'' @ str_int (N + nums ! j))) \<and>
              (\<forall>a. a \<notin> {''id'', ''href'', ''url'', ''code''} \<longrightarrow> (es ! j) a = (s ! src) a))"
proof -
  let ?Q = "\<lambda>num e.
              e ''id'' = Some (PInt (N + num)) \<and>
              e ''href'' = Some (PStr (re_sub_digits_end (str_int (N + num)) h)) \<and>
              e ''url'' = Some (PStr (re_sub_digits_end (str_int (N + num)) u)) \<and>
              e ''code'' = Some (PStr (''TEMPLATE-'' @ str_int (N + num))) \<and>
              (\<forall>a. a \<notin> {''id'', ''href'', ''url'', ''code''} \<longrightarrow> e a = (s ! src) a)"
  have step: "\<exists>e st'. asmt_tmpl_clone_elem c src st x = Inr (length st, st') \<and> st' = st @ [e] \<and> ?Q x e"
    if "\<exists>t. st = s @ t" and "x \<in> set nums" for st x
  proof -
    from that(1) obtain t' where st: "st = s @ t'" by blast
    have same: "st ! src = s ! src" using src st by (simp add: nth_append)
    have "src < length st" using src st by simp
    moreover have "N + x \<noteq> 0" using pos that(2) N by fastforce
    ultimately show ?thesis
      using asmt_tmpl_clone_elem_result [of src st N h u c x] id href url names same
      by auto
  qed
  have "\<exists>rs st' es. list_comp (asmt_tmpl_clone_elem c src) s nums = Inr (rs, st') \<and>
           length rs = length nums \<and> st' = s @ es \<and> length es = length nums \<and>
           (\<forall>j<length nums. rs ! j = length s + j \<and> ?Q (nums ! j) (es ! j))"
    by (rule list_comp_alloc [where p = "\<lambda>st. st" and ?s0.0 = s and Q = ?Q]) (use step in auto)
  then show ?thesis by blast
qed

text \<open>What the substitution does to a string that ends in digits: the whole final run of
  digits is replaced.\<close>

lemma re_sub_digits_end_replaces:
  assumes "ds \<noteq> []" and "\<forall>d \<in> set ds. is_digit d" and "p = [] \<or> \<not> is_digit (last p)"
  shows "re_sub_digits_end repl (p @ ds) = p @ repl"
proof -
  have nd: "\<not> is_digit (CHR 0x0A)" by (simp add: is_digit_def)
  have l: "last (p @ ds) \<noteq> CHR 0x0A" using assms(1,2) nd by (metis last_appendR last_in_set)
  have tp: "takeWhile is_digit (rev p) = []" and dp: "dropWhile is_digit (rev p) = rev p"
    using assms(3) by (cases p rule: rev_cases; simp)+
  have "takeWhile is_digit (rev ds @ rev p) = rev ds @ takeWhile is_digit (rev p)"
    by (rule takeWhile_append2) (use assms(2) in auto)
  with tp have tw: "takeWhile is_digit (rev ds @ rev p) = rev ds" by simp
  have "dropWhile is_digit (rev ds @ rev p) = dropWhile is_digit (rev p)"
    by (rule dropWhile_append2) (use assms(2) in auto)
  with dp have dw: "dropWhile is_digit (rev ds @ rev p) = rev p" by simp
  show ?thesis using l tw dw assms(1) by (simp add: re_sub_digits_end_def Let_def)
qed

lemma digit_run_rev:
  assumes "\<forall>d \<in> set ds. is_digit d" and "p = [] \<or> \<not> is_digit (last p)"
  shows "takeWhile is_digit (rev (p @ ds)) = rev ds"
    and "dropWhile is_digit (rev (p @ ds)) = rev p"
proof -
  have tp: "takeWhile is_digit (rev p) = []" and dp: "dropWhile is_digit (rev p) = rev p"
    using assms(2) by (cases p rule: rev_cases; simp)+
  have "takeWhile is_digit (rev ds @ rev p) = rev ds @ takeWhile is_digit (rev p)"
    by (rule takeWhile_append2) (use assms(1) in auto)
  with tp show "takeWhile is_digit (rev (p @ ds)) = rev ds" by simp
  have "dropWhile is_digit (rev ds @ rev p) = dropWhile is_digit (rev p)"
    by (rule dropWhile_append2) (use assms(1) in auto)
  with dp show "dropWhile is_digit (rev (p @ ds)) = rev p" by simp
qed

text \<open>The same before a newline that ends the string: \<^verbatim>\<open>$\<close> also matches there.\<close>

lemma re_sub_digits_end_newline:
  assumes "ds \<noteq> []" and "\<forall>d \<in> set ds. is_digit d" and "p = [] \<or> \<not> is_digit (last p)"
  shows "re_sub_digits_end repl (p @ ds @ [CHR 0x0A]) = p @ repl @ [CHR 0x0A]"
proof -
  have b: "butlast (p @ ds @ [CHR 0x0A]) = p @ ds"
    by (simp add: butlast_append)
  have l: "last (p @ ds @ [CHR 0x0A]) = CHR 0x0A" by simp
  from digit_run_rev [OF assms(2,3)] assms(1) b l show ?thesis
    by (simp add: re_sub_digits_end_def Let_def del: rev_append)
qed

text \<open>A string that ends neither in a digit nor in a digit and a newline is not changed.\<close>

lemma re_sub_digits_end_unchanged:
  assumes "\<not> (\<exists>p d. is_digit d \<and> (x = p @ [d] \<or> x = p @ [d, CHR 0x0A]))"
  shows "re_sub_digits_end repl x = x"
proof -
  have nd: "y = [] \<or> \<not> is_digit (last y) \<Longrightarrow> takeWhile is_digit (rev y) = []" for y
    by (cases y rule: rev_cases) auto
  show ?thesis
  proof (cases "x \<noteq> [] \<and> last x = CHR 0x0A")
    case False
    have "x = [] \<or> \<not> is_digit (last x)"
    proof (rule ccontr)
      assume "\<not> (x = [] \<or> \<not> is_digit (last x))"
      then have "x = butlast x @ [last x]" and "is_digit (last x)" by simp_all
      with assms show False by blast
    qed
    from nd [OF this] False show ?thesis by (auto simp: re_sub_digits_end_def Let_def)
  next
    case True
    then have x: "x = butlast x @ [CHR 0x0A]" by (metis append_butlast_last_id)
    have "butlast x = [] \<or> \<not> is_digit (last (butlast x))"
    proof (rule ccontr)
      assume "\<not> (butlast x = [] \<or> \<not> is_digit (last (butlast x)))"
      then have "butlast x = butlast (butlast x) @ [last (butlast x)]"
        and d: "is_digit (last (butlast x))" by simp_all
      with x have "x = butlast (butlast x) @ [last (butlast x), CHR 0x0A]"
        by (metis append.assoc append_Cons append_Nil)
      with assms d show False by blast
    qed
    from nd [OF this] True show ?thesis by (simp add: re_sub_digits_end_def Let_def)
  qed
qed

lemma re_sub_newline_example:
  "re_sub_digits_end ''6'' (''/api/t/5'' @ [CHR 0x0A]) = ''/api/t/6'' @ [CHR 0x0A]"
  by code_simp

text \<open>The copies that both \<open>clone\<close> methods build, with href and url given by the
  substitution.\<close>

lemma clone_entities:
  assumes src: "src < length s"
    and id: "(s ! src) ''id'' = Some (PInt N)" and N: "0 \<le> N"
    and href: "(s ! src) ''href'' = Some (PStr h)"
    and url: "(s ! src) ''url'' = Some (PStr u)"
    and names: "{''title'', ''id'', ''href'', ''url'', ''code''} \<subseteq> set (all_objs_attrs_names c)"
  shows "(\<forall>t. (s ! src) ''title'' = Some (PStr t) \<longrightarrow>
           (\<exists>objs s'. AuditsFactory_clone c N s src k = Inr (Some objs, s') \<and>
              length objs = nat k \<and> length s' = length s + nat k \<and>
              (\<forall>r<length s. s' ! r = s ! r) \<and>
              (\<forall>j<nat k. objs ! j = length s + j \<and>
                 (s' ! (objs ! j)) ''title'' = Some (PStr (t @ '' - copy '' @ str_int (1 + int j))) \<and>
                 (s' ! (objs ! j)) ''id'' = Some (PInt (N + (1 + int j))) \<and>
                 (s' ! (objs ! j)) ''href'' = Some (PStr (re_sub_digits_end (str_int (N + (1 + int j))) h)) \<and>
                 (s' ! (objs ! j)) ''url'' = Some (PStr (re_sub_digits_end (str_int (N + (1 + int j))) u)) \<and>
                 (s' ! (objs ! j)) ''code'' = Some (PStr (''AUDIT-'' @ str_int (N + (1 + int j)))) \<and>
                 (\<forall>a. a \<notin> {''title'', ''id'', ''href'', ''url'', ''code''} \<longrightarrow>
                    (s' ! (objs ! j)) a = (s ! src) a))))
       \<and> (\<exists>objs s'. AssessmentTemplatesFactory_clone c N s src k = Inr (Some objs, s') \<and>
              length objs = nat k \<and> length s' = length s + nat k \<and>
              (\<forall>r<length s. s' ! r = s ! r) \<and>
              (\<forall>j<nat k. objs ! j = length s + j \<and>
                 (s' ! (objs ! j)) ''title'' = (s ! src) ''title'' \<and>
                 (s' ! (objs ! j)) ''id'' = Some (PInt (N + (1 + int j))) \<and>
                 (s' ! (objs ! j)) ''href'' = Some (PStr (re_sub_digits_end (str_int (N + (1 + int j))) h)) \<and>
                 (s' ! (objs ! j)) ''url'' = Some (PStr (re_sub_digits_end (str_int (N + (1 + int j))) u)) \<and>
                 (s' ! (objs ! j)) ''code'' = Some (PStr (''TEMPLATE-'' @ str_int (N + (1 + int j)))) \<and>
                 (\<forall>a. a \<notin> {''id'', ''href'', ''url'', ''code''} \<longrightarrow>
                    (s' ! (objs ! j)) a = (s ! src) a)))"
proof (intro conjI allI impI)
  have pos: "\<forall>n \<in> set [1..k]. 1 \<le> n" by simp
  have len: "length [1..k] = nat k" by simp
  have nth: "[1..k] ! j = 1 + int j" if "j < nat k" for j using that by simp
  {
    fix t assume title: "(s ! src) ''title'' = Some (PStr t)"
    from audit_clone_loop [OF src title id N href url names pos]
    obtain objs es where lc: "list_comp (audit_clone_elem c src) s [1..k] = Inr (objs, s @ es)"
      and lo: "length objs = length [1..k]" and le: "length es = length [1..k]"
      and all: "\<forall>j<length [1..k]. objs ! j = length s + j \<and>
              (es ! j) ''title'' = Some (PStr (t @ '' - copy '' @ str_int ([1..k] ! j))) \<and>
              (es ! j) ''id'' = Some (PInt (N + [1..k] ! j)) \<and>
              (es ! j) ''href'' = Some (PStr (re_sub_digits_end (str_int (N + [1..k] ! j)) h)) \<and>
              (es ! j) ''url'' = Some (PStr (re_sub_digits_end (str_int (N + [1..k] ! j)) u)) \<and>
              (es ! j) ''code'' = Some (PStr (''AUDIT-'' @ str_int (N + [1..k] ! j))) \<and>
              (\<forall>a. a \<notin> {''title'', ''id'', ''href'', ''url'', ''code''} \<longrightarrow> (es ! j) a = (s ! src) a)"
      by blast
    have run: "AuditsFactory_clone c N s src k = Inr (Some objs, s @ es)"
      using id lc by (simp add: AuditsFactory_clone_def getattr_def)
    have copies: "\<forall>j<nat k. objs ! j = length s + j \<and>
                 ((s @ es) ! (objs ! j)) ''title'' = Some (PStr (t @ '' - copy '' @ str_int (1 + int j))) \<and>
                 ((s @ es) ! (objs ! j)) ''id'' = Some (PInt (N + (1 + int j))) \<and>
                 ((s @ es) ! (objs ! j)) ''href'' = Some (PStr (re_sub_digits_end (str_int (N + (1 + int j))) h)) \<and>
                 ((s @ es) ! (objs ! j)) ''url'' = Some (PStr (re_sub_digits_end (str_int (N + (1 + int j))) u)) \<and>
                 ((s @ es) ! (objs ! j)) ''code'' = Some (PStr (''AUDIT-'' @ str_int (N + (1 + int j)))) \<and>
                 (\<forall>a. a \<notin> {''title'', ''id'', ''href'', ''url'', ''code''} \<longrightarrow>
                    ((s @ es) ! (objs ! j)) a = (s ! src) a)"
    proof (intro allI impI)
      fix j assume j: "j < nat k"
      then have j': "j < length [1..k]" by simp
      from all [rule_format, OF j'] nth [OF j]
      show "objs ! j = length s + j \<and>
                 ((s @ es) ! (objs ! j)) ''title'' = Some (PStr (t @ '' - copy '' @ str_int (1 + int j))) \<and>
                 ((s @ es) ! (objs ! j)) ''id'' = Some (PInt (N + (1 + int j))) \<and>
                 ((s @ es) ! (objs ! j)) ''href'' = Some (PStr (re_sub_digits_end (str_int (N + (1 + int j))) h)) \<and>
                 ((s @ es) ! (objs ! j)) ''url'' = Some (PStr (re_sub_digits_end (str_int (N + (1 + int j))) u)) \<and>
                 ((s @ es) ! (objs ! j)) ''code'' = Some (PStr (''AUDIT-'' @ str_int (N + (1 + int j)))) \<and>
                 (\<forall>a. a \<notin> {''title'', ''id'', ''href'', ''url'', ''code''} \<longrightarrow>
                    ((s @ es) ! (objs ! j)) a = (s ! src) a)"
        by (simp add: nth_append)
    qed
    have "length objs = nat k" "length (s @ es) = length s + nat k"
      "\<forall>r<length s. (s @ es) ! r = s ! r"
      using lo le len by (simp_all add: nth_append)
    with run copies
    show "\<exists>objs s'. AuditsFactory_clone c N s src k = Inr (Some objs, s') \<and>
              length objs = nat k \<and> length s' = length s + nat k \<and>
              (\<forall>r<length s. s' ! r = s ! r) \<and>
              (\<forall>j<nat k. objs ! j = length s + j \<and>
                 (s' ! (objs ! j)) ''title'' = Some (PStr (t @ '' - copy '' @ str_int (1 + int j))) \<and>
                 (s' ! (objs ! j)) ''id'' = Some (PInt (N + (1 + int j))) \<and>
                 (s' ! (objs ! j)) ''href'' = Some (PStr (re_sub_digits_end (str_int (N + (1 + int j))) h)) \<and>
                 (s' ! (objs ! j)) ''url'' = Some (PStr (re_sub_digits_end (str_int (N + (1 + int j))) u)) \<and>
                 (s' ! (objs ! j)) ''code'' = Some (PStr (''AUDIT-'' @ str_int (N + (1 + int j)))) \<and>
                 (\<forall>a. a \<notin> {''title'', ''id'', ''href'', ''url'', ''code''} \<longrightarrow>
                    (s' ! (objs ! j)) a = (s ! src) a))"
      by blast
  }
  have names': "{''id'', ''href'', ''url'', ''code''} \<subseteq> set (all_objs_attrs_names c)"
    using names by simp
  from asmt_tmpl_clone_loop [OF src id N href url names' pos]
  obtain objs es where lc: "list_comp (asmt_tmpl_clone_elem c src) s [1..k] = Inr (objs, s @ es)"
    and lo: "length objs = length [1..k]" and le: "length es = length [1..k]"
    and all: "\<forall>j<length [1..k]. objs ! j = length s + j \<and>
              (es ! j) ''id'' = Some (PInt (N + [1..k] ! j)) \<and>
              (es ! j) ''href'' = Some (PStr (re_sub_digits_end (str_int (N + [1..k] ! j)) h)) \<and>
              (es ! j) ''url'' = Some (PStr (re_sub_digits_end (str_int (N + [1..k] ! j)) u)) \<and>
              (es ! j) ''code'' = Some (PStr (''TEMPLATE-'' @ str_int (N + [1..k] ! j))) \<and>
              (\<forall>a. a \<notin> {''id'', ''href'', ''url'', ''code''} \<longrightarrow> (es ! j) a = (s ! src) a)"
    by blast
  have run: "AssessmentTemplatesFactory_clone c N s src k = Inr (Some objs, s @ es)"
    using id lc by (simp add: AssessmentTemplatesFactory_clone_def getattr_def)
  have copies: "\<forall>j<nat k. objs ! j = length s + j \<and>
                 ((s @ es) ! (objs ! j)) ''title'' = (s ! src) ''title'' \<and>
                 ((s @ es) ! (objs ! j)) ''id'' = Some (PInt (N + (1 + int j))) \<and>
                 ((s @ es) ! (objs ! j)) ''href'' = Some (PStr (re_sub_digits_end (str_int (N + (1 + int j))) h)) \<and>
                 ((s @ es) ! (objs ! j)) ''url'' = Some (PStr (re_sub_digits_end (str_int (N + (1 + int j))) u)) \<and>
                 ((s @ es) ! (objs ! j)) ''code'' = Some (PStr (''TEMPLATE-'' @ str_int (N + (1 + int j)))) \<and>
                 (\<forall>a. a \<notin> {''id'', ''href'', ''url'', ''code''} \<longrightarrow>
                    ((s @ es) ! (objs ! j)) a = (s ! src) a)"
  proof (intro allI impI)
    fix j assume j: "j < nat k"
    then have j': "j < length [1..k]" by simp
    from all [rule_format, OF j'] nth [OF j]
    show "objs ! j = length s + j \<and>
                 ((s @ es) ! (objs ! j)) ''title'' = (s ! src) ''title'' \<and>
                 ((s @ es) ! (objs ! j)) ''id'' = Some (PInt (N + (1 + int j))) \<and>
                 ((s @ es) ! (objs ! j)) ''href'' = Some (PStr (re_sub_digits_end (str_int (N + (1 + int j))) h)) \<and>
                 ((s @ es) ! (objs ! j)) ''url'' = Some (PStr (re_sub_digits_end (str_int (N + (1 + int j))) u)) \<and>
                 ((s @ es) ! (objs ! j)) ''code'' = Some (PStr (''TEMPLATE-'' @ str_int (N + (1 + int j)))) \<and>
                 (\<forall>a. a \<notin> {''id'', ''href'', ''url'', ''code''} \<longrightarrow>
                    ((s @ es) ! (objs ! j)) a = (s ! src) a)"
      by (simp add: nth_append)
  qed
  have "length objs = nat k" "length (s @ es) = length s + nat k"
    "\<forall>r<length s. (s @ es) ! r = s ! r"
    using lo le len by (simp_all add: nth_append)
  with run copies
  show "\<exists>objs s'. AssessmentTemplatesFactory_clone c N s src k = Inr (Some objs, s') \<and>
              length objs = nat k \<and> length s' = length s + nat k \<and>
              (\<forall>r<length s. s' ! r = s ! r) \<and>
              (\<forall>j<nat k. objs ! j = length s + j \<and>
                 (s' ! (objs ! j)) ''title'' = (s ! src) ''title'' \<and>
                 (s' ! (objs ! j)) ''id'' = Some (PInt (N + (1 + int j))) \<and>
                 (s' ! (objs ! j)) ''href'' = Some (PStr (re_sub_digits_end (str_int (N + (1 + int j))) h)) \<and>
                 (s' ! (objs ! j)) ''url'' = Some (PStr (re_sub_digits_end (str_int (N + (1 + int j))) u)) \<and>
                 (s' ! (objs ! j)) ''code'' = Some (PStr (''TEMPLATE-'' @ str_int (N + (1 + int j)))) \<and>
                 (\<forall>a. a \<notin> {''id'', ''href'', ''url'', ''code''} \<longrightarrow>
                    (s' ! (objs ! j)) a = (s ! src) a))"
    by blast
qed

text \<open>
  C3 (amended). Let the source entity have the integer id N, equal to the answer of the
  count service (so N is not negative), string-valued \<open>href\<close> and \<open>url\<close>, and let the
  allow-list hold the names title, id, href, url and code. Then \<open>clone\<close> returns
  \<open>count_to_clone\<close> new objects (none when it is negative), leaves every existing object
  unchanged, and the n-th copy (n = 1..count_to_clone) has id N+n, the code \<open>AUDIT-{N+n}\<close>
  or \<open>TEMPLATE-{N+n}\<close>, and the href and url that the substitution of N+n makes of the
  source's. The substitution replaces the whole run of digits that ends the string, or
  that ends just before a newline ending the string (the newline stays); a string that
  ends neither in a digit nor in a digit and a newline is left as it is. For an audit with
  a string title the copy's title is the source's title followed by \<open> - copy n\<close>; the copy
  of an assessment template keeps the title of its source. Every other attribute of a copy
  is the source's.
\<close>

theorem clone_copies:
  assumes src: "src < length s"
    and id: "(s ! src) ''id'' = Some (PInt N)" and N: "0 \<le> N"
    and href: "(s ! src) ''href'' = Some (PStr h)"
    and url: "(s ! src) ''url'' = Some (PStr u)"
    and names: "{''title'', ''id'', ''href'', ''url'', ''code''} \<subseteq> set (all_objs_attrs_names c)"
  shows "(\<forall>t. (s ! src) ''title'' = Some (PStr t) \<longrightarrow>
           (\<exists>objs s'. AuditsFactory_clone c N s src k = Inr (Some objs, s') \<and>
              length objs = nat k \<and> length s' = length s + nat k \<and>
              (\<forall>r<length s. s' ! r = s ! r) \<and>
              (\<forall>j<nat k. objs ! j = length s + j \<and>
                 (s' ! (objs ! j)) ''title'' = Some (PStr (t @ '' - copy '' @ str_int (1 + int j))) \<and>
                 (s' ! (objs ! j)) ''id'' = Some (PInt (N + (1 + int j))) \<and>
                 (s' ! (objs ! j)) ''href'' = Some (PStr (re_sub_digits_end (str_int (N + (1 + int j))) h)) \<and>
                 (s' ! (objs ! j)) ''url'' = Some (PStr (re_sub_digits_end (str_int (N + (1 + int j))) u)) \<and>
                 (s' ! (objs ! j)) ''code'' = Some (PStr (''AUDIT-'' @ str_int (N + (1 + int j)))) \<and>
                 (\<forall>a. a \<notin> {''title'', ''id'', ''href'', ''url'', ''code''} \<longrightarrow>
                    (s' ! (objs ! j)) a = (s ! src) a))))
       \<and> (\<exists>objs s'. AssessmentTemplatesFactory_clone c N s src k = Inr (Some objs, s') \<and>
              length objs = nat k \<and> length s' = length s + nat k \<and>
              (\<forall>r<length s. s' ! r = s ! r) \<and>
              (\<forall>j<nat k. objs ! j = length s + j \<and>
                 (s' ! (objs ! j)) ''title'' = (s ! src) ''title'' \<and>
                 (s' ! (objs ! j)) ''id'' = Some (PInt (N + (1 + int j))) \<and>
                 (s' ! (objs ! j)) ''href'' = Some (PStr (re_sub_digits_end (str_int (N + (1 + int j))) h)) \<and>
                 (s' ! (objs ! j)) ''url'' = Some (PStr (re_sub_digits_end (str_int (N + (1 + int j))) u)) \<and>
                 (s' ! (objs ! j)) ''code'' = Some (PStr (''TEMPLATE-'' @ str_int (N + (1 + int j)))) \<and>
                 (\<forall>a. a \<notin> {''id'', ''href'', ''url'', ''code''} \<longrightarrow>
                    (s' ! (objs ! j)) a = (s ! src) a)))
       \<and> (\<forall>repl p ds. ds \<noteq> [] \<and> (\<forall>d \<in> set ds. is_digit d) \<and> (p = [] \<or> \<not> is_digit (last p))
            \<longrightarrow> re_sub_digits_end repl (p @ ds) = p @ repl)
       \<and> (\<forall>repl p ds. ds \<noteq> [] \<and> (\<forall>d \<in> set ds. is_digit d) \<and> (p = [] \<or> \<not> is_digit (last p))
            \<longrightarrow> re_sub_digits_end repl (p @ ds @ [CHR 0x0A]) = p @ repl @ [CHR 0x0A])
       \<and> (\<forall>repl x. \<not> (\<exists>p d. is_digit d \<and> (x = p @ [d] \<or> x = p @ [d, CHR 0x0A]))
            \<longrightarrow> re_sub_digits_end repl x = x)"
  apply (intro conjI)
      apply (rule clone_entities [OF src id N href url names, THEN conjunct1])
     apply (rule clone_entities [OF src id N href url names, THEN conjunct2])
    apply (simp add: re_sub_digits_end_replaces)
   apply (simp add: re_sub_digits_end_newline)
  apply (simp add: re_sub_digits_end_unchanged)
  done

text \<open>
  The claim as it was stated also gives the copy of an assessment template a title with a
  copy suffix. It has none: cloning the template with id 5 and title \<open>T\<close> against a count
  of 5 gives one copy, with id 6, the new code, and the title \<open>T\<close> of its source.
\<close>

theorem clone_copies_counterexample:
  "observe_clones (AssessmentTemplatesFactory_clone example_constants 5 [example_asmt_tmpl] 0 1)
       [''id'', ''title'', ''code'']
     = Inr (Some [(1, [Some (PInt 6), Some (PStr ''T''), Some (PStr ''TEMPLATE-6'')])])"
  by code_simp

theorem clone_copies_witness:
  "\<exists>objs s'. AuditsFactory_clone example_constants 5 [example_audit] 0 2 = Inr (Some objs, s') \<and>
     length objs = 2 \<and> s' ! 0 = example_audit \<and>
     (s' ! (objs ! 1)) ''title'' = Some (PStr ''A - copy 2'') \<and>
     (s' ! (objs ! 1)) ''id'' = Some (PInt 7) \<and>
     (s' ! (objs ! 1)) ''href'' = Some (PStr ''/api/audits/7'') \<and>
     (s' ! (objs ! 1)) ''url'' = Some (PStr ''audits/7'') \<and>
     (s' ! (objs ! 1)) ''code'' = Some (PStr ''AUDIT-7'') \<and>
     (s' ! (objs ! 1)) ''status'' = Some (PStr ''Planned'') \<and>
     re_sub_digits_end ''7'' (''/api/audits/15'' @ [CHR 0x0A]) = ''/api/audits/7'' @ [CHR 0x0A] \<and>
     re_sub_digits_end ''7'' ''/api/audits/'' = ''/api/audits/''"
proof -
  have h1: "0 < length [example_audit]" by simp
  have h2: "([example_audit] ! 0) ''id'' = Some (PInt 5)" by (simp add: example_audit_def)
  have h3: "(0::int) \<le> 5" by simp
  have h4: "([example_audit] ! 0) ''href'' = Some (PStr ''/api/audits/5'')"
    by (simp add: example_audit_def)
  have h5: "([example_audit] ! 0) ''url'' = Some (PStr ''audits/5'')"
    by (simp add: example_audit_def)
  have h6: "{''title'', ''id'', ''href'', ''url'', ''code''} \<subseteq> set (all_objs_attrs_names example_constants)"
    by (simp add: example_constants_def example_attrs_names_def)
  have h7: "([example_audit] ! 0) ''title'' = Some (PStr ''A'')" by (simp add: example_audit_def)
  from clone_copies [OF h1 h2 h3 h4 h5 h6, of 2, THEN conjunct1, rule_format, OF h7]
  obtain objs s' where p: "AuditsFactory_clone example_constants 5 [example_audit] 0 2 = Inr (Some objs, s') \<and>
    length objs = nat 2 \<and> length s' = length [example_audit] + nat 2 \<and>
    (\<forall>r<length [example_audit]. s' ! r = [example_audit] ! r) \<and>
    (\<forall>j<nat 2. objs ! j = length [example_audit] + j \<and>
                 (s' ! (objs ! j)) ''title'' = Some (PStr (''A'' @ '' - copy '' @ str_int (1 + int j))) \<and>
                 (s' ! (objs ! j)) ''id'' = Some (PInt (5 + (1 + int j))) \<and>
                 (s' ! (objs ! j)) ''href'' = Some (PStr (re_sub_digits_end (str_int (5 + (1 + int j))) ''/api/audits/5'')) \<and>
                 (s' ! (objs ! j)) ''url'' = Some (PStr (re_sub_digits_end (str_int (5 + (1 + int j))) ''audits/5'')) \<and>
                 (s' ! (objs ! j)) ''code'' = Some (PStr (''AUDIT-'' @ str_int (5 + (1 + int j)))) \<and>
                 (\<forall>a. a \<notin> {''title'', ''id'', ''href'', ''url'', ''code''} \<longrightarrow>
                    (s' ! (objs ! j)) a = ([example_audit] ! 0) a))"
    by (elim exE) (rule that)
  note run = p [THEN conjunct1]
    and len = p [THEN conjunct2, THEN conjunct1]
    and old = p [THEN conjunct2, THEN conjunct2, THEN conjunct2, THEN conjunct1]
    and all = p [THEN conjunct2, THEN conjunct2, THEN conjunct2, THEN conjunct2]
  have e1: "str_int 2 = ''2''" by code_simp
  have e2: "str_int 7 = ''7''" by code_simp
  note sub = clone_copies [OF h1 h2 h3 h4 h5 h6, of 2, THEN conjunct2, THEN conjunct2]
  have d5: "is_digit CHR ''5''" and d1: "is_digit CHR ''1''" and nd: "\<not> is_digit CHR ''/''"
    by (simp_all add: is_digit_def)
  have g1: "''5'' \<noteq> [] \<and> (\<forall>d \<in> set ''5''. is_digit d) \<and>
            (''/api/audits/'' = [] \<or> \<not> is_digit (last ''/api/audits/''))"
    using d5 nd by simp
  have g1': "''5'' \<noteq> [] \<and> (\<forall>d \<in> set ''5''. is_digit d) \<and>
            (''audits/'' = [] \<or> \<not> is_digit (last ''audits/''))"
    using d5 nd by simp
  have g2: "''15'' \<noteq> [] \<and> (\<forall>d \<in> set ''15''. is_digit d) \<and>
            (''/api/audits/'' = [] \<or> \<not> is_digit (last ''/api/audits/''))"
    using d1 d5 nd by simp
  have g3: "\<not> (\<exists>p d. is_digit d \<and> (''/api/audits/'' = p @ [d] \<or> ''/api/audits/'' = p @ [d, CHR 0x0A]))"
  proof
    assume "\<exists>p d. is_digit d \<and> (''/api/audits/'' = p @ [d] \<or> ''/api/audits/'' = p @ [d, CHR 0x0A])"
    then obtain p d where d: "is_digit d"
      and x: "''/api/audits/'' = p @ [d] \<or> ''/api/audits/'' = p @ [d, CHR 0x0A]" by blast
    from x have "last ''/api/audits/'' = d \<or> last ''/api/audits/'' = CHR 0x0A"
      by (metis last_snoc last_appendR last.simps list.distinct(1))
    then have "d = CHR ''/''" by simp
    with d nd show False by simp
  qed
  have "re_sub_digits_end ''7'' (''/api/audits/'' @ ''5'') = ''/api/audits/'' @ ''7''"
    using sub [THEN conjunct1, rule_format, OF g1] .
  then have e3: "re_sub_digits_end ''7'' ''/api/audits/5'' = ''/api/audits/7''" by simp
  have "re_sub_digits_end ''7'' (''audits/'' @ ''5'') = ''audits/'' @ ''7''"
    using sub [THEN conjunct1, rule_format, OF g1'] .
  then have e4: "re_sub_digits_end ''7'' ''audits/5'' = ''audits/7''" by simp
  have "re_sub_digits_end ''7'' (''/api/audits/'' @ ''15'' @ [CHR 0x0A]) = ''/api/audits/'' @ ''7'' @ [CHR 0x0A]"
    using sub [THEN conjunct2, THEN conjunct1, rule_format, OF g2] .
  then have c7: "re_sub_digits_end ''7'' (''/api/audits/15'' @ [CHR 0x0A]) = ''/api/audits/7'' @ [CHR 0x0A]"
    by simp
  have c8: "re_sub_digits_end ''7'' ''/api/audits/'' = ''/api/audits/''"
    using sub [THEN conjunct2, THEN conjunct2, rule_format, OF g3] .
  have "(1::nat) < nat 2" by simp
  note k = all [rule_format, OF this]
  have c1: "(s' ! (objs ! 1)) ''title'' = Some (PStr ''A - copy 2'')"
    using k [THEN conjunct2, THEN conjunct1] e1 by simp
  have c2: "(s' ! (objs ! 1)) ''id'' = Some (PInt 7)"
    using k [THEN conjunct2, THEN conjunct2, THEN conjunct1] by simp
  have c3: "(s' ! (objs ! 1)) ''href'' = Some (PStr ''/api/audits/7'')"
    using k [THEN conjunct2, THEN conjunct2, THEN conjunct2, THEN conjunct1] e2 e3 by simp
  have c4: "(s' ! (objs ! 1)) ''url'' = Some (PStr ''audits/7'')"
    using k [THEN conjunct2, THEN conjunct2, THEN conjunct2, THEN conjunct2, THEN conjunct1] e2 e4
    by simp
  have c5: "(s' ! (objs ! 1)) ''code'' = Some (PStr ''AUDIT-7'')"
    using k [THEN conjunct2, THEN conjunct2, THEN conjunct2, THEN conjunct2, THEN conjunct2,
        THEN conjunct1] e2
    by simp
  have c6: "(s' ! (objs ! 1)) ''status'' = Some (PStr ''Planned'')"
    using k [THEN conjunct2, THEN conjunct2, THEN conjunct2, THEN conjunct2, THEN conjunct2,
        THEN conjunct2, rule_format, of "''status''"]
    by (simp add: example_audit_def)
  from old have o: "s' ! 0 = example_audit" by simp
  from len have l: "length objs = 2" by simp
  from run l o c1 c2 c3 c4 c5 c6 c7 c8 show ?thesis
    by (intro exI [of _ objs] exI [of _ s'] conjI)
qed

section \<open>Properties of AssessmentsFactory.generate\<close>

lemma bind_kwargs_generate:
  "\<exists>arguments. bind_kwargs asmt_params [(''title'', v1), (''code'', v2), (''audit'', v3)] = Inr arguments \<and>
     arguments ''title'' = Some v1 \<and> arguments ''code'' = Some v2 \<and> arguments ''audit'' = Some v3"
  by (simp add: bind_kwargs_def asmt_params_def)

lemma generate_create_result:
  assumes names: "{''title'', ''code'', ''audit''} \<subseteq> set (all_objs_attrs_names c)"
    and "truthy v1" and "truthy v2" and "truthy v3"
  shows "\<exists>e g'. AssessmentsFactory_create c s g [(''title'', v1), (''code'', v2), (''audit'', v3)]
             = Inr (length s, s @ [e], g') \<and>
           e ''title'' = Some v1 \<and> e ''code'' = Some v2 \<and> e ''audit'' = Some v3"
proof -
  from bind_kwargs_generate [of v1 v2 v3] obtain arguments where
    b: "bind_kwargs asmt_params [(''title'', v1), (''code'', v2), (''audit'', v3)] = Inr arguments"
    and a: "arguments ''title'' = Some v1" "arguments ''code'' = Some v2" "arguments ''audit'' = Some v3"
    by (elim exE conjE)
  from create_random_asmt_result [of c s g] obtain e0 g1 where
    r: "create_random_asmt c s g = Inr (length s, s @ [e0], g1)" by (elim exE conjE)
  from create_with_result [where create_random = "create_random_asmt c", OF b r, of c]
  obtain e where run: "create_with asmt_params (create_random_asmt c) c s g
        [(''title'', v1), (''code'', v2), (''audit'', v3)] = Inr (length s, s @ [e], g1)"
    and e: "\<And>a. e a = (case arguments a of None \<Rightarrow> e0 a
              | Some v \<Rightarrow> if a \<in> set (all_objs_attrs_names c) \<and> truthy v then Some v else e0 a)"
    by blast
  have "e ''title'' = Some v1" "e ''code'' = Some v2" "e ''audit'' = Some v3"
    using names assms(2-4) a by (simp_all add: e)
  with run show ?thesis by (simp add: AssessmentsFactory_create_def)
qed

lemma generate_elem_result:
  assumes obj: "obj < length s" and audit: "audit < length s"
    and t: "(s ! obj) ''title'' = Some (PStr t)"
    and ta: "(s ! audit) ''title'' = Some (PStr ta)" and ne: "ta \<noteq> []"
    and names: "{''title'', ''code'', ''audit''} \<subseteq> set (all_objs_attrs_names c)"
  shows "\<exists>e g'. generate_elem c audit (s, g) (n, obj) = Inr (length s, s @ [e], g') \<and>
           e ''title'' = Some (PStr (t @ '' assessment for '' @ ta)) \<and>
           e ''code'' = Some (PStr (''ASSESSMENT-'' @ str_int n)) \<and>
           e ''audit'' = Some (PStr ta)"
proof -
  have "truthy (PStr ((t @ '' assessment for '') @ ta))"
    and "truthy (PStr (upper obj_asmt @ ''-'' @ str_int n))" and "truthy (PStr ta)"
    using ne by simp_all
  from generate_create_result [OF names this, of s g]
  show ?thesis using t ta
    by (simp add: generate_elem_def getattr_def upper_obj_asmt)
qed

lemma length_enumerate_from [simp]: "length (enumerate_from n xs) = length xs"
  by (induction xs arbitrary: n) auto

lemma nth_enumerate_from [simp]:
  "j < length xs \<Longrightarrow> enumerate_from n xs ! j = (n + int j, xs ! j)"
proof (induction xs arbitrary: n j)
  case Nil
  then show ?case by simp
next
  case (Cons x xs)
  then show ?case by (cases j) auto
qed

lemma set_enumerate_from: "x \<in> set (enumerate_from n xs) \<Longrightarrow> snd x \<in> set xs"
  by (induction xs arbitrary: n) auto

text \<open>
  C4. For every list of input objects and every audit, entities of the data model (an
  entity's title is a non-empty string; of the objects only a string title is used), and
  with the names title, code and audit in the allow-list: when the count service answers
  T, \<open>generate\<close> returns one new assessment for each input object, in the order of the
  input and leaving the existing objects unchanged; the assessment for the i-th object
  (i = 1..length) has the title \<open>{object.title} assessment for {audit.title}\<close>, the code
  \<open>ASSESSMENT-{T+i}\<close> and the audit's title as its \<open>audit\<close> attribute. (Positions are
  counted from 0 below, so the code number is T + 1 + i.)
\<close>

theorem generate_assessments:
  assumes audit: "audit < length s"
    and ta: "(s ! audit) ''title'' = Some (PStr ta)" and ne: "ta \<noteq> []"
    and objs: "\<forall>obj \<in> set objs. obj < length s \<and> (\<exists>t. (s ! obj) ''title'' = Some (PStr t))"
    and names: "{''title'', ''code'', ''audit''} \<subseteq> set (all_objs_attrs_names c)"
  shows "\<exists>asmts s' g'. AssessmentsFactory_generate c T s g objs audit = Inr (asmts, s', g') \<and>
           length asmts = length objs \<and>
           (\<forall>r<length s. s' ! r = s ! r) \<and>
           (\<forall>i<length objs. asmts ! i = length s + i \<and>
              (\<exists>t. (s ! (objs ! i)) ''title'' = Some (PStr t) \<and>
                   (s' ! (asmts ! i)) ''title'' = Some (PStr (t @ '' assessment for '' @ ta))) \<and>
              (s' ! (asmts ! i)) ''code'' = Some (PStr (''ASSESSMENT-'' @ str_int (T + 1 + int i))) \<and>
              (s' ! (asmts ! i)) ''audit'' = Some (PStr ta))"
proof -
  let ?xs = "enumerate_from (T + 1) objs"
  let ?Q = "\<lambda>x e. (\<exists>t. (s ! snd x) ''title'' = Some (PStr t) \<and>
                       e ''title'' = Some (PStr (t @ '' assessment for '' @ ta))) \<and>
                  e ''code'' = Some (PStr (''ASSESSMENT-'' @ str_int (fst x))) \<and>
                  e ''audit'' = Some (PStr ta)"
  have step: "\<exists>e st'. generate_elem c audit st x = Inr (length (fst st), st') \<and>
                 fst st' = fst st @ [e] \<and> ?Q x e"
    if pre: "\<exists>t. fst st = s @ t" and x: "x \<in> set ?xs" for st x
  proof -
    obtain s1 g1 where st: "st = (s1, g1)" by (cases st)
    obtain n obj where xx: "x = (n, obj)" by (cases x)
    from pre st obtain t' where s1: "s1 = s @ t'" by auto
    from x xx have "obj \<in> set objs" using set_enumerate_from [of x "T + 1" objs] by simp
    with objs obtain t where o: "obj < length s" and t: "(s ! obj) ''title'' = Some (PStr t)"
      by blast
    have o1: "obj < length s1" and a1: "audit < length s1" using o audit s1 by simp_all
    have t1: "(s1 ! obj) ''title'' = Some (PStr t)" using o t s1 by (simp add: nth_append)
    have ta1: "(s1 ! audit) ''title'' = Some (PStr ta)" using audit ta s1 by (simp add: nth_append)
    from generate_elem_result [OF o1 a1 t1 ta1 ne names, of g1 n]
    obtain e g' where "generate_elem c audit (s1, g1) (n, obj) = Inr (length s1, s1 @ [e], g')"
      and "e ''title'' = Some (PStr (t @ '' assessment for '' @ ta))"
      and "e ''code'' = Some (PStr (''ASSESSMENT-'' @ str_int n))"
      and "e ''audit'' = Some (PStr ta)" by (elim exE conjE)
    with t st xx show ?thesis by auto
  qed
  have "\<exists>rs st' es. list_comp (generate_elem c audit) (s, g) ?xs = Inr (rs, st') \<and>
           length rs = length ?xs \<and> fst st' = fst (s, g) @ es \<and> length es = length ?xs \<and>
           (\<forall>j<length ?xs. rs ! j = length (fst (s, g)) + j \<and> ?Q (?xs ! j) (es ! j))"
    by (rule list_comp_alloc [where p = fst and ?s0.0 = s and Q = ?Q]) (use step in auto)
  then obtain rs st' es where lc: "list_comp (generate_elem c audit) (s, g) ?xs = Inr (rs, st')"
    and lr: "length rs = length objs" and st': "fst st' = s @ es" and le: "length es = length objs"
    and all: "\<forall>j<length objs. rs ! j = length s + j \<and> ?Q (?xs ! j) (es ! j)"
    by auto
  obtain s' g' where sg: "st' = (s', g')" by (cases st')
  with st' have s': "s' = s @ es" by simp
  have run: "AssessmentsFactory_generate c T s g objs audit = Inr (rs, s', g')"
    using lc sg by (simp add: AssessmentsFactory_generate_def)
  have old: "\<forall>r<length s. s' ! r = s ! r" using s' by (simp add: nth_append)
  have each: "\<forall>i<length objs. rs ! i = length s + i \<and>
              (\<exists>t. (s ! (objs ! i)) ''title'' = Some (PStr t) \<and>
                   (s' ! (rs ! i)) ''title'' = Some (PStr (t @ '' assessment for '' @ ta))) \<and>
              (s' ! (rs ! i)) ''code'' = Some (PStr (''ASSESSMENT-'' @ str_int (T + 1 + int i))) \<and>
              (s' ! (rs ! i)) ''audit'' = Some (PStr ta)"
  proof (intro allI impI)
    fix i assume i: "i < length objs"
    from all [rule_format, OF i] i
    show "rs ! i = length s + i \<and>
              (\<exists>t. (s ! (objs ! i)) ''title'' = Some (PStr t) \<and>
                   (s' ! (rs ! i)) ''title'' = Some (PStr (t @ '' assessment for '' @ ta))) \<and>
              (s' ! (rs ! i)) ''code'' = Some (PStr (''ASSESSMENT-'' @ str_int (T + 1 + int i))) \<and>
              (s' ! (rs ! i)) ''audit'' = Some (PStr ta)"
      by (simp add: s' nth_append)
  qed
  from run lr old each show ?thesis by blast
qed

theorem generate_assessments_witness:
  "\<exists>asmts s' g'.
     AssessmentsFactory_generate example_constants 5
       [example_control_a, example_control_b, example_audit] example_rng [0, 1] 2 = Inr (asmts, s', g') \<and>
     length asmts = 2 \<and>
     (s' ! (asmts ! 0)) ''title'' = Some (PStr ''a assessment for A'') \<and>
     (s' ! (asmts ! 0)) ''code'' = Some (PStr ''ASSESSMENT-6'') \<and>
     (s' ! (asmts ! 1)) ''title'' = Some (PStr ''b assessment for A'') \<and>
     (s' ! (asmts ! 1)) ''code'' = Some (PStr ''ASSESSMENT-7'') \<and>
     (s' ! (asmts ! 1)) ''audit'' = Some (PStr ''A'')"
proof -
  let ?s = "[example_control_a, example_control_b, example_audit]"
  have h1: "2 < length ?s" by simp
  have h2: "(?s ! 2) ''title'' = Some (PStr ''A'')" by (simp add: example_audit_def)
  have h3: "''A'' \<noteq> []" by simp
  have h4: "\<forall>obj \<in> set [0, 1]. obj < length ?s \<and> (\<exists>t. (?s ! obj) ''title'' = Some (PStr t))"
    by (simp add: example_control_a_def example_control_b_def)
  have h5: "{''title'', ''code'', ''audit''} \<subseteq> set (all_objs_attrs_names example_constants)"
    by (simp add: example_constants_def example_attrs_names_def)
  from generate_assessments [OF h1 h2 h3 h4 h5, of 5 example_rng]
  obtain asmts s' g' where p:
    "AssessmentsFactory_generate example_constants 5 ?s example_rng [0, 1] 2 = Inr (asmts, s', g') \<and>
     length asmts = length [0::nat, 1] \<and>
     (\<forall>r<length ?s. s' ! r = ?s ! r) \<and>
     (\<forall>i<length [0::nat, 1]. asmts ! i = length ?s + i \<and>
        (\<exists>t. (?s ! ([0, 1] ! i)) ''title'' = Some (PStr t) \<and>
             (s' ! (asmts ! i)) ''title'' = Some (PStr (t @ '' assessment for '' @ ''A''))) \<and>
        (s' ! (asmts ! i)) ''code'' = Some (PStr (''ASSESSMENT-'' @ str_int (5 + 1 + int i))) \<and>
        (s' ! (asmts ! i)) ''audit'' = Some (PStr ''A''))"
    by (elim exE) (rule that)
  note run = p [THEN conjunct1]
    and len = p [THEN conjunct2, THEN conjunct1]
    and all = p [THEN conjunct2, THEN conjunct2, THEN conjunct2]
  have e6: "str_int 6 = ''6''" by code_simp
  have e7: "str_int 7 = ''7''" by code_simp
  have i0: "(0::nat) < length [0::nat, 1]" and i1: "(1::nat) < length [0::nat, 1]" by simp_all
  note k0 = all [rule_format, OF i0] and k1 = all [rule_format, OF i1]
  have a1: "(s' ! (asmts ! 0)) ''title'' = Some (PStr ''a assessment for A'')"
    using k0 [THEN conjunct2, THEN conjunct1] by (simp add: example_control_a_def)
  have a2: "(s' ! (asmts ! 0)) ''code'' = Some (PStr ''ASSESSMENT-6'')"
    using k0 [THEN conjunct2, THEN conjunct2, THEN conjunct1] e6 by simp
  have b1: "(s' ! (asmts ! 1)) ''title'' = Some (PStr ''b assessment for A'')"
    using k1 [THEN conjunct2, THEN conjunct1] by (simp add: example_control_b_def)
  have b2: "(s' ! (asmts ! 1)) ''code'' = Some (PStr ''ASSESSMENT-7'')"
    using k1 [THEN conjunct2, THEN conjunct2, THEN conjunct1] e7 by simp
  have b3: "(s' ! (asmts ! 1)) ''audit'' = Some (PStr ''A'')"
    using k1 [THEN conjunct2, THEN conjunct2, THEN conjunct2] by simp
  from len have l: "length asmts = 2" by simp
  from run l a1 a2 b1 b2 b3 show ?thesis
    by (intro exI [of _ asmts] exI [of _ s'] exI [of _ g'] conjI)
qed

section \<open>Properties of CAFactory.create\<close>

lemma bind_kwargs_ca:
  assumes "bind_kwargs ca_params kwargs = Inr ca_object_fields"
  shows "ca_object_fields ''title'' = Some (case map_of kwargs ''title'' of None \<Rightarrow> PNone | Some v \<Rightarrow> v)"
    and "ca_object_fields ''definition_type'' =
           Some (case map_of kwargs ''definition_type'' of None \<Rightarrow> PNone | Some v \<Rightarrow> v)"
    and "ca_object_fields ''placeholder'' =
           Some (case map_of kwargs ''placeholder'' of None \<Rightarrow> PNone | Some v \<Rightarrow> v)"
    and "ca_object_fields ''multi_choice_options'' =
           Some (case map_of kwargs ''multi_choice_options'' of None \<Rightarrow> PNone | Some v \<Rightarrow> v)"
proof -
  from assms have f: "ca_object_fields =
      map_of (map (\<lambda>pd. (fst pd, case map_of kwargs (fst pd) of None \<Rightarrow> snd pd | Some v \<Rightarrow> v)) ca_params)"
    by (simp add: bind_kwargs_def split: if_splits)
  show "ca_object_fields ''title'' = Some (case map_of kwargs ''title'' of None \<Rightarrow> PNone | Some v \<Rightarrow> v)"
    unfolding f by (simp add: ca_params_def split: option.splits)
  show "ca_object_fields ''definition_type'' =
           Some (case map_of kwargs ''definition_type'' of None \<Rightarrow> PNone | Some v \<Rightarrow> v)"
    unfolding f by (simp add: ca_params_def split: option.splits)
  show "ca_object_fields ''placeholder'' =
           Some (case map_of kwargs ''placeholder'' of None \<Rightarrow> PNone | Some v \<Rightarrow> v)"
    unfolding f by (simp add: ca_params_def split: option.splits)
  show "ca_object_fields ''multi_choice_options'' =
           Some (case map_of kwargs ''multi_choice_options'' of None \<Rightarrow> PNone | Some v \<Rightarrow> v)"
    unfolding f by (simp add: ca_params_def split: option.splits)
qed

lemma assign_if_frame:
  assumes "assign_if (s @ [e]) (length s) ca_object_fields tested attr key = Inr s'"
  shows "\<exists>e'. s' = s @ [e'] \<and> (\<forall>b. b \<noteq> attr \<longrightarrow> e' b = e b) \<and>
           (truthy (dict_get ca_object_fields tested) \<longrightarrow> e' attr = ca_object_fields key)"
proof (cases "truthy (dict_get ca_object_fields tested)")
  case False
  with assms have "s' = s @ [e]" by (simp add: assign_if_def)
  with False show ?thesis by simp
next
  case True
  with assms obtain v where "ca_object_fields key = Some v" and "s' = s @ [e(attr \<mapsto> v)]"
    by (auto simp: assign_if_def dict_item_def rbind_Inr_iff split: option.splits)
  then show ?thesis by (intro exI [of _ "e(attr \<mapsto> v)"]) simp
qed

lemma fill_ca_type_frame:
  assumes "fill_ca_type c (s @ [e]) g (length s) ca_object_fields = Inr (s', g')"
  shows "\<exists>e'. s' = s @ [e'] \<and> (\<forall>b. b \<noteq> ''ca_type'' \<and> b \<noteq> ''title'' \<longrightarrow> e' b = e b)"
proof (cases "truthy (dict_get ca_object_fields ''ca_type'')")
  case False
  with assms have "s' = s @ [e]" by (simp add: fill_ca_type_def)
  then show ?thesis by simp
next
  case True
  with assms obtain v title where "s' = s @ [e(''ca_type'' \<mapsto> v, ''title'' \<mapsto> PStr title)]"
    by (auto simp: fill_ca_type_def dict_item_def getattr_def rbind_Inr_iff split: option.splits)
  then show ?thesis
    by (intro exI [of _ "e(''ca_type'' \<mapsto> v, ''title'' \<mapsto> PStr title)"]) simp
qed

lemma fill_placeholder_frame:
  assumes "fill_placeholder c (s @ [e]) (length s) ca_object_fields = Inr s'"
  shows "\<exists>e'. s' = s @ [e'] \<and> (\<forall>b. b \<noteq> ''placeholder'' \<longrightarrow> e' b = e b) \<and>
           e' ''placeholder'' =
             (if truthy (dict_get ca_object_fields ''placeholder'') \<and>
                 (e ''ca_type'' = Some (PStr (TEXT c)) \<or> e ''ca_type'' = Some (PStr (RICH_TEXT c)))
              then ca_object_fields ''placeholder'' else e ''placeholder'')"
proof (cases "truthy (dict_get ca_object_fields ''placeholder'') \<and>
                 (e ''ca_type'' = Some (PStr (TEXT c)) \<or> e ''ca_type'' = Some (PStr (RICH_TEXT c)))")
  case False
  with assms have "s' = s @ [e]"
    by (auto simp: fill_placeholder_def getattr_def rbind_Inr_iff split: if_splits option.splits)
  with False show ?thesis by (intro exI [of _ e]) auto
next
  case True
  with assms obtain v where v: "ca_object_fields ''placeholder'' = Some v"
    and "s' = s @ [e(''placeholder'' \<mapsto> v)]"
    by (auto simp: fill_placeholder_def getattr_def dict_item_def rbind_Inr_iff
        split: if_splits option.splits)
  with True show ?thesis by (intro exI [of _ "e(''placeholder'' \<mapsto> v)"]) simp
qed

lemma fill_multi_choice_options_frame:
  assumes "fill_multi_choice_options c (s @ [e]) g (length s) ca_object_fields = Inr (s', g')"
  shows "\<exists>e'. s' = s @ [e'] \<and> (\<forall>b. b \<noteq> ''multi_choice_options'' \<longrightarrow> e' b = e b) \<and>
           (e ''ca_type'' \<noteq> Some (PStr (DROPDOWN c)) \<longrightarrow>
              e' ''multi_choice_options'' = e ''multi_choice_options'') \<and>
           (e ''ca_type'' = Some (PStr (DROPDOWN c)) \<and>
            \<not> truthy (dict_get ca_object_fields ''multi_choice_options'') \<longrightarrow>
              (\<exists>xs. e' ''multi_choice_options'' = Some (PStrList xs) \<and> length xs = 3))"
proof -
  from assms obtain ct where ct: "e ''ca_type'' = Some ct"
    by (auto simp: fill_multi_choice_options_def getattr_def split: option.splits)
  show ?thesis
  proof (cases "ct = PStr (DROPDOWN c)")
    case False
    with assms ct have "s' = s @ [e]"
      by (simp add: fill_multi_choice_options_def getattr_def)
    with False ct show ?thesis by simp
  next
    case True
    show ?thesis
    proof (cases "truthy (dict_get ca_object_fields ''multi_choice_options'')")
      case False
      with assms ct True
      have "s' = s @ [e(''multi_choice_options'' \<mapsto> PStrList (map (tokens g) [0..<3]))]"
        by (auto simp: fill_multi_choice_options_def getattr_def random_list_strings_def)
      then show ?thesis
        by (intro exI [of _ "e(''multi_choice_options'' \<mapsto> PStrList (map (tokens g) [0..<3]))"])
           (simp add: ct True)
    next
      case t: True
      with assms ct True obtain v where
        "s' = s @ [e(''multi_choice_options'' \<mapsto> v)]"
        by (auto simp: fill_multi_choice_options_def getattr_def random_list_strings_def
            dict_item_def rbind_Inr_iff split: option.splits if_splits)
      with t show ?thesis
        by (intro exI [of _ "e(''multi_choice_options'' \<mapsto> v)"]) (simp add: ct True)
    qed
  qed
qed

lemma normalize_ca_definition_type_frame:
  assumes "normalize_ca_definition_type c (s @ [e]) (length s) = Inr (r, s')"
  shows "r = length s \<and> (\<exists>e'. s' = s @ [e'] \<and> (\<forall>b. b \<noteq> ''definition_type'' \<longrightarrow> e' b = e b))"
proof -
  from assms obtain n where "r = length s" and "s' = s @ [e(''definition_type'' \<mapsto> n)]"
    by (auto simp: normalize_ca_definition_type_def getattr_def rbind_Inr_iff split: option.splits)
  then show ?thesis by simp
qed

lemma create_random_ca_frame:
  assumes "create_random_ca c s g = Inr (r, s', g')"
  shows "r = length s \<and> (\<exists>e. s' = s @ [e] \<and>
           e ''placeholder'' = new_entity c ''CustomAttributeEntity'' ''placeholder'' \<and>
           e ''multi_choice_options'' = new_entity c ''CustomAttributeEntity'' ''multi_choice_options'')"
proof -
  from assms obtain ct title dt where "r = length s"
    and "s' = s @ [(new_entity c ''CustomAttributeEntity'')
           (''ca_type'' \<mapsto> ct, ''title'' \<mapsto> title, ''definition_type'' \<mapsto> dt)]"
    by (auto simp: create_random_ca_def alloc_def getattr_def rbind_Inr_iff split: option.splits)
  then show ?thesis by simp
qed

text \<open>What \<open>CAFactory.create\<close> leaves in the entity it returns, in terms of the keyword
  arguments of the call (a parameter that is not supplied counts with its default).\<close>

lemma CAFactory_create_result:
  assumes "CAFactory_create c s g kwargs = Inr (r, s', g')"
  shows "r = length s \<and> (\<exists>e. s' = s @ [e] \<and>
     (truthy (case map_of kwargs ''title'' of None \<Rightarrow> PNone | Some v \<Rightarrow> v) \<longrightarrow>
        e ''title'' = Some (case map_of kwargs ''definition_type'' of None \<Rightarrow> PNone | Some v \<Rightarrow> v)) \<and>
     e ''placeholder'' =
       (if truthy (case map_of kwargs ''placeholder'' of None \<Rightarrow> PNone | Some v \<Rightarrow> v) \<and>
           (e ''ca_type'' = Some (PStr (TEXT c)) \<or> e ''ca_type'' = Some (PStr (RICH_TEXT c)))
        then Some (case map_of kwargs ''placeholder'' of None \<Rightarrow> PNone | Some v \<Rightarrow> v)
        else new_entity c ''CustomAttributeEntity'' ''placeholder'') \<and>
     (e ''ca_type'' \<noteq> Some (PStr (DROPDOWN c)) \<longrightarrow>
        e ''multi_choice_options'' = new_entity c ''CustomAttributeEntity'' ''multi_choice_options'') \<and>
     (e ''ca_type'' = Some (PStr (DROPDOWN c)) \<and>
      \<not> truthy (case map_of kwargs ''multi_choice_options'' of None \<Rightarrow> PNone | Some v \<Rightarrow> v) \<longrightarrow>
        (\<exists>xs. e ''multi_choice_options'' = Some (PStrList xs) \<and> length xs = 3)))"
proof -
  let ?new = "new_entity c ''CustomAttributeEntity''"
  from assms obtain fs ca s1 g1 ca2 s2 where
    b: "bind_kwargs ca_params kwargs = Inr fs"
    and cr: "create_random_ca c s g = Inr (ca, s1, g1)"
    and fill: "fill_ca_entity_fields c s1 g1 ca fs = Inr (ca2, s2, g')"
    and norm: "normalize_ca_definition_type c s2 ca2 = Inr (r, s')"
    by (auto simp: CAFactory_create_def rbind_Inr_iff)
  note fs = bind_kwargs_ca [OF b]
  have dg: "dict_get fs ''title'' = (case map_of kwargs ''title'' of None \<Rightarrow> PNone | Some v \<Rightarrow> v)"
    "dict_get fs ''placeholder'' = (case map_of kwargs ''placeholder'' of None \<Rightarrow> PNone | Some v \<Rightarrow> v)"
    "dict_get fs ''multi_choice_options'' =
       (case map_of kwargs ''multi_choice_options'' of None \<Rightarrow> PNone | Some v \<Rightarrow> v)"
    by (simp_all add: dict_get_def fs)
  from create_random_ca_frame [OF cr] obtain e1 where ca: "ca = length s" and s1: "s1 = s @ [e1]"
    and e1p: "e1 ''placeholder'' = ?new ''placeholder''"
    and e1m: "e1 ''multi_choice_options'' = ?new ''multi_choice_options''" by blast
  from fill obtain t1 h1 t2 t3 t4 t5 t6 t7 where ca2: "ca2 = ca"
    and st1: "fill_ca_type c s1 g1 ca fs = Inr (t1, h1)"
    and st2: "assign_if t1 ca fs ''definition_type'' ''definition_type'' ''definition_type'' = Inr t2"
    and st3: "assign_if t2 ca fs ''title'' ''title'' ''definition_type'' = Inr t3"
    and st4: "fill_placeholder c t3 ca fs = Inr t4"
    and st5: "assign_if t4 ca fs ''helptext'' ''helptext'' ''helptext'' = Inr t5"
    and st6: "assign_if t5 ca fs ''is_mandatory'' ''is_mandatory'' ''is_mandatory'' = Inr t6"
    and st7: "assign_if t6 ca fs ''ca_global'' ''ca_global'' ''ca_global'' = Inr t7"
    and st8: "fill_multi_choice_options c t7 h1 ca fs = Inr (s2, g')"
    by (auto simp: fill_ca_entity_fields_def rbind_Inr_iff)
  from fill_ca_type_frame [OF st1 [unfolded s1 ca]] obtain e2 where t1: "t1 = s @ [e2]"
    and f2: "\<And>b. b \<noteq> ''ca_type'' \<Longrightarrow> b \<noteq> ''title'' \<Longrightarrow> e2 b = e1 b" by blast
  from assign_if_frame [OF st2 [unfolded t1 ca]] obtain e3 where t2: "t2 = s @ [e3]"
    and f3: "\<And>b. b \<noteq> ''definition_type'' \<Longrightarrow> e3 b = e2 b" by blast
  from assign_if_frame [OF st3 [unfolded t2 ca]] obtain e4 where t3: "t3 = s @ [e4]"
    and f4: "\<And>b. b \<noteq> ''title'' \<Longrightarrow> e4 b = e3 b"
    and v4: "truthy (dict_get fs ''title'') \<longrightarrow> e4 ''title'' = fs ''definition_type''" by blast
  from fill_placeholder_frame [OF st4 [unfolded t3 ca]] obtain e5 where t4: "t4 = s @ [e5]"
    and f5: "\<And>b. b \<noteq> ''placeholder'' \<Longrightarrow> e5 b = e4 b"
    and v5: "e5 ''placeholder'' =
             (if truthy (dict_get fs ''placeholder'') \<and>
                 (e4 ''ca_type'' = Some (PStr (TEXT c)) \<or> e4 ''ca_type'' = Some (PStr (RICH_TEXT c)))
              then fs ''placeholder'' else e4 ''placeholder'')" by blast
  from assign_if_frame [OF st5 [unfolded t4 ca]] obtain e6 where t5: "t5 = s @ [e6]"
    and f6: "\<And>b. b \<noteq> ''helptext'' \<Longrightarrow> e6 b = e5 b" by blast
  from assign_if_frame [OF st6 [unfolded t5 ca]] obtain e7 where t6: "t6 = s @ [e7]"
    and f7: "\<And>b. b \<noteq> ''is_mandatory'' \<Longrightarrow> e7 b = e6 b" by blast
  from assign_if_frame [OF st7 [unfolded t6 ca]] obtain e8 where t7: "t7 = s @ [e8]"
    and f8: "\<And>b. b \<noteq> ''ca_global'' \<Longrightarrow> e8 b = e7 b" by blast
  from fill_multi_choice_options_frame [OF st8 [unfolded t7 ca]] obtain e9 where s2: "s2 = s @ [e9]"
    and f9: "\<And>b. b \<noteq> ''multi_choice_options'' \<Longrightarrow> e9 b = e8 b"
    and v9a: "e8 ''ca_type'' \<noteq> Some (PStr (DROPDOWN c)) \<longrightarrow>
              e9 ''multi_choice_options'' = e8 ''multi_choice_options''"
    and v9b: "e8 ''ca_type'' = Some (PStr (DROPDOWN c)) \<and>
            \<not> truthy (dict_get fs ''multi_choice_options'') \<longrightarrow>
              (\<exists>xs. e9 ''multi_choice_options'' = Some (PStrList xs) \<and> length xs = 3)" by blast
  from normalize_ca_definition_type_frame [OF norm [unfolded s2 ca2 ca]] obtain e10 where
    r: "r = length s" and s': "s' = s @ [e10]"
    and f10: "\<And>b. b \<noteq> ''definition_type'' \<Longrightarrow> e10 b = e9 b" by blast
  have ct4: "e4 ''ca_type'' = e10 ''ca_type''" by (simp add: f10 f9 f8 f7 f6 f5)
  have ct8: "e8 ''ca_type'' = e10 ''ca_type''" by (simp add: f10 f9)
  have title: "e10 ''title'' = e4 ''title''" by (simp add: f10 f9 f8 f7 f6 f5)
  have ph: "e10 ''placeholder'' = e5 ''placeholder''" by (simp add: f10 f9 f8 f7 f6)
  have ph4: "e4 ''placeholder'' = ?new ''placeholder''" by (simp add: f4 f3 f2 e1p)
  have m10: "e10 ''multi_choice_options'' = e9 ''multi_choice_options''" by (simp add: f10)
  have m8: "e8 ''multi_choice_options'' = ?new ''multi_choice_options''"
    by (simp add: f8 f7 f6 f5 f4 f3 f2 e1m)
  have 1: "truthy (case map_of kwargs ''title'' of None \<Rightarrow> PNone | Some v \<Rightarrow> v) \<longrightarrow>
        e10 ''title'' = Some (case map_of kwargs ''definition_type'' of None \<Rightarrow> PNone | Some v \<Rightarrow> v)"
    using v4 by (simp add: title dg fs)
  have 2: "e10 ''placeholder'' =
       (if truthy (case map_of kwargs ''placeholder'' of None \<Rightarrow> PNone | Some v \<Rightarrow> v) \<and>
           (e10 ''ca_type'' = Some (PStr (TEXT c)) \<or> e10 ''ca_type'' = Some (PStr (RICH_TEXT c)))
        then Some (case map_of kwargs ''placeholder'' of None \<Rightarrow> PNone | Some v \<Rightarrow> v)
        else ?new ''placeholder'')"
    by (simp add: ph v5 ph4 ct4 dg fs cong: if_cong)
  have 3: "e10 ''ca_type'' \<noteq> Some (PStr (DROPDOWN c)) \<longrightarrow>
        e10 ''multi_choice_options'' = ?new ''multi_choice_options''"
    using v9a by (simp add: m10 m8 ct8)
  have 4: "e10 ''ca_type'' = Some (PStr (DROPDOWN c)) \<and>
      \<not> truthy (case map_of kwargs ''multi_choice_options'' of None \<Rightarrow> PNone | Some v \<Rightarrow> v) \<longrightarrow>
        (\<exists>xs. e10 ''multi_choice_options'' = Some (PStrList xs) \<and> length xs = 3)"
    using v9b by (simp add: m10 ct8 dg)
  from r s' 1 2 3 4 show ?thesis by blast
qed

text \<open>\<open>CAFactory.create\<close> returns: with valid keywords, non-empty tables of attribute kinds
  and definition types and a normal form for every value, no step of it raises.\<close>

lemma bind_kwargs_ca_total:
  assumes "list_all (\<lambda>kv. fst kv \<in> set (map fst ca_params)) kwargs"
  shows "\<exists>fs. bind_kwargs ca_params kwargs = Inr fs \<and>
           {''title'', ''ca_type'', ''definition_type'', ''helptext'', ''placeholder'',
            ''multi_choice_options'', ''is_mandatory'', ''ca_global''} \<subseteq> dom fs"
proof -
  let ?fs = "map_of (map (\<lambda>pd. (fst pd, case map_of kwargs (fst pd) of None \<Rightarrow> snd pd | Some v \<Rightarrow> v)) ca_params)"
  have "bind_kwargs ca_params kwargs = Inr ?fs" using assms by (simp add: bind_kwargs_def)
  moreover have "{''title'', ''ca_type'', ''definition_type'', ''helptext'', ''placeholder'',
            ''multi_choice_options'', ''is_mandatory'', ''ca_global''} \<subseteq> dom ?fs"
    by (simp add: ca_params_def dom_def)
  ultimately show ?thesis by blast
qed

lemma create_random_ca_total:
  assumes "ALL_ATTRS_TYPES c \<noteq> []" and "ALL_CA_OBJECTS c \<noteq> []"
  shows "\<exists>e g'. create_random_ca c s g = Inr (length s, s @ [e], g') \<and>
           ''ca_type'' \<in> dom e \<and> ''definition_type'' \<in> dom e"
proof -
  let ?g1 = "g\<lparr>choices := \<lambda>i. choices g (Suc i)\<rparr>"
  let ?ct = "ALL_ATTRS_TYPES c ! (choices g 0 mod length (ALL_ATTRS_TYPES c))"
  have c1: "random_choice (ALL_ATTRS_TYPES c) g = Inr (?ct, ?g1)"
    using assms(1) by (simp add: random_choice_def)
  from generate_title_result [of c "PStr ?ct" ?g1] obtain title g2 where
    t: "generate_title c (PStr ?ct) ?g1 = Inr (title, g2)" by blast
  let ?g3 = "g2\<lparr>choices := \<lambda>i. choices g2 (Suc i)\<rparr>"
  let ?dt = "ALL_CA_OBJECTS c ! (choices g2 0 mod length (ALL_CA_OBJECTS c))"
  have c2: "random_choice (ALL_CA_OBJECTS c) g2 = Inr (?dt, ?g3)"
    using assms(2) by (simp add: random_choice_def)
  have "create_random_ca c s g =
      Inr (length s, s @ [(new_entity c ''CustomAttributeEntity'')
             (''ca_type'' \<mapsto> PStr ?ct, ''title'' \<mapsto> PStr title, ''definition_type'' \<mapsto> PStr ?dt)], ?g3)"
    using c1 t c2 by (simp add: create_random_ca_def alloc_def getattr_def)
  then show ?thesis by simp
qed

lemma assign_if_total:
  assumes "key \<in> dom ca_object_fields"
  shows "\<exists>e'. assign_if (s @ [e]) (length s) ca_object_fields tested attr key = Inr (s @ [e']) \<and>
           dom e \<subseteq> dom e'"
proof -
  from assms obtain v where v: "ca_object_fields key = Some v" by blast
  show ?thesis
  proof (cases "truthy (dict_get ca_object_fields tested)")
    case False
    then show ?thesis by (simp add: assign_if_def)
  next
    case True
    with v have "assign_if (s @ [e]) (length s) ca_object_fields tested attr key = Inr (s @ [e(attr \<mapsto> v)])"
      by (simp add: assign_if_def dict_item_def)
    then show ?thesis by (intro exI [of _ "e(attr \<mapsto> v)"]) auto
  qed
qed

lemma fill_ca_type_total:
  assumes "''ca_type'' \<in> dom ca_object_fields"
  shows "\<exists>e' g'. fill_ca_type c (s @ [e]) g (length s) ca_object_fields = Inr (s @ [e'], g') \<and>
           dom e \<subseteq> dom e'"
proof -
  from assms obtain v where v: "ca_object_fields ''ca_type'' = Some v" by blast
  show ?thesis
  proof (cases "truthy (dict_get ca_object_fields ''ca_type'')")
    case False
    then show ?thesis by (simp add: fill_ca_type_def)
  next
    case True
    from generate_title_result [of c v g] obtain title g' where
      t: "generate_title c v g = Inr (title, g')" by blast
    with v True have "fill_ca_type c (s @ [e]) g (length s) ca_object_fields =
        Inr (s @ [e(''ca_type'' \<mapsto> v, ''title'' \<mapsto> PStr title)], g')"
      by (simp add: fill_ca_type_def dict_item_def getattr_def)
    then show ?thesis
      by (intro exI [of _ "e(''ca_type'' \<mapsto> v, ''title'' \<mapsto> PStr title)"] exI [of _ g']) auto
  qed
qed

lemma fill_placeholder_total:
  assumes "''placeholder'' \<in> dom ca_object_fields" and "''ca_type'' \<in> dom e"
  shows "\<exists>e'. fill_placeholder c (s @ [e]) (length s) ca_object_fields = Inr (s @ [e']) \<and>
           dom e \<subseteq> dom e'"
proof -
  from assms obtain v ct where v: "ca_object_fields ''placeholder'' = Some v"
    and ct: "e ''ca_type'' = Some ct" by blast
  show ?thesis
  proof (cases "truthy (dict_get ca_object_fields ''placeholder'') \<and>
                 (ct = PStr (TEXT c) \<or> ct = PStr (RICH_TEXT c))")
    case False
    with ct have "fill_placeholder c (s @ [e]) (length s) ca_object_fields = Inr (s @ [e])"
      by (auto simp: fill_placeholder_def getattr_def)
    then show ?thesis by blast
  next
    case True
    with v ct have "fill_placeholder c (s @ [e]) (length s) ca_object_fields =
        Inr (s @ [e(''placeholder'' \<mapsto> v)])"
      by (auto simp: fill_placeholder_def getattr_def dict_item_def)
    then show ?thesis by (intro exI [of _ "e(''placeholder'' \<mapsto> v)"]) auto
  qed
qed

lemma fill_multi_choice_options_total:
  assumes "''multi_choice_options'' \<in> dom ca_object_fields" and "''ca_type'' \<in> dom e"
  shows "\<exists>e' g'. fill_multi_choice_options c (s @ [e]) g (length s) ca_object_fields = Inr (s @ [e'], g') \<and>
           dom e \<subseteq> dom e'"
proof -
  from assms obtain v ct where v: "ca_object_fields ''multi_choice_options'' = Some v"
    and ct: "e ''ca_type'' = Some ct" by blast
  have "\<exists>w g'. fill_multi_choice_options c (s @ [e]) g (length s) ca_object_fields =
           Inr (s @ [e(''multi_choice_options'' \<mapsto> w)], g') \<or>
         fill_multi_choice_options c (s @ [e]) g (length s) ca_object_fields = Inr (s @ [e], g')"
    using v ct
    by (auto simp: fill_multi_choice_options_def getattr_def dict_item_def random_list_strings_def)
  then show ?thesis
  proof (elim exE disjE)
    fix w g'
    assume "fill_multi_choice_options c (s @ [e]) g (length s) ca_object_fields =
           Inr (s @ [e(''multi_choice_options'' \<mapsto> w)], g')"
    then show ?thesis
      by (intro exI [of _ "e(''multi_choice_options'' \<mapsto> w)"] exI [of _ g']) auto
  next
    fix w g'
    assume "fill_multi_choice_options c (s @ [e]) g (length s) ca_object_fields = Inr (s @ [e], g')"
    then show ?thesis by blast
  qed
qed

lemma normalize_ca_definition_type_total:
  assumes "''definition_type'' \<in> dom e" and "\<And>v. \<exists>w. get_normal_form c v = Inr w"
  shows "\<exists>e'. normalize_ca_definition_type c (s @ [e]) (length s) = Inr (length s, s @ [e'])"
proof -
  from assms(1) obtain d where d: "e ''definition_type'' = Some d" by blast
  from assms(2) [of d] obtain n where n: "get_normal_form c d = Inr n" by blast
  from d n have "normalize_ca_definition_type c (s @ [e]) (length s) =
      Inr (length s, s @ [e(''definition_type'' \<mapsto> n)])"
    by (simp add: normalize_ca_definition_type_def getattr_def)
  then show ?thesis by blast
qed

lemma CAFactory_create_returns:
  assumes kw: "list_all (\<lambda>kv. fst kv \<in> set (map fst ca_params)) kwargs"
    and kinds: "ALL_ATTRS_TYPES c \<noteq> []" and objs: "ALL_CA_OBJECTS c \<noteq> []"
    and nf: "\<And>v. \<exists>w. get_normal_form c v = Inr w"
  shows "\<exists>r s' g'. CAFactory_create c s g kwargs = Inr (r, s', g')"
proof -
  from bind_kwargs_ca_total [OF kw] obtain fs where b: "bind_kwargs ca_params kwargs = Inr fs"
    and d: "''title'' \<in> dom fs" "''ca_type'' \<in> dom fs" "''definition_type'' \<in> dom fs"
      "''helptext'' \<in> dom fs" "''placeholder'' \<in> dom fs" "''multi_choice_options'' \<in> dom fs"
      "''is_mandatory'' \<in> dom fs" "''ca_global'' \<in> dom fs" by auto
  from create_random_ca_total [OF kinds objs, of s g] obtain e1 g1 where
    cr: "create_random_ca c s g = Inr (length s, s @ [e1], g1)"
    and e1: "''ca_type'' \<in> dom e1" "''definition_type'' \<in> dom e1" by blast
  from fill_ca_type_total [OF d(2), of c s e1 g1] obtain e2 g2 where
    s1: "fill_ca_type c (s @ [e1]) g1 (length s) fs = Inr (s @ [e2], g2)" and m2: "dom e1 \<subseteq> dom e2"
    by blast
  from assign_if_total [OF d(3), of s e2 "''definition_type''" "''definition_type''"] obtain e3 where
    s2: "assign_if (s @ [e2]) (length s) fs ''definition_type'' ''definition_type'' ''definition_type''
          = Inr (s @ [e3])" and m3: "dom e2 \<subseteq> dom e3" by blast
  from assign_if_total [OF d(3), of s e3 "''title''" "''title''"] obtain e4 where
    s3: "assign_if (s @ [e3]) (length s) fs ''title'' ''title'' ''definition_type'' = Inr (s @ [e4])"
    and m4: "dom e3 \<subseteq> dom e4" by blast
  have ct4: "''ca_type'' \<in> dom e4" using e1(1) m2 m3 m4 by blast
  from fill_placeholder_total [OF d(5) ct4, of c s] obtain e5 where
    s4: "fill_placeholder c (s @ [e4]) (length s) fs = Inr (s @ [e5])" and m5: "dom e4 \<subseteq> dom e5"
    by blast
  from assign_if_total [OF d(4), of s e5 "''helptext''" "''helptext''"] obtain e6 where
    s5: "assign_if (s @ [e5]) (length s) fs ''helptext'' ''helptext'' ''helptext'' = Inr (s @ [e6])"
    and m6: "dom e5 \<subseteq> dom e6" by blast
  from assign_if_total [OF d(7), of s e6 "''is_mandatory''" "''is_mandatory''"] obtain e7 where
    s6: "assign_if (s @ [e6]) (length s) fs ''is_mandatory'' ''is_mandatory'' ''is_mandatory''
          = Inr (s @ [e7])" and m7: "dom e6 \<subseteq> dom e7" by blast
  from assign_if_total [OF d(8), of s e7 "''ca_global''" "''ca_global''"] obtain e8 where
    s7: "assign_if (s @ [e7]) (length s) fs ''ca_global'' ''ca_global'' ''ca_global'' = Inr (s @ [e8])"
    and m8: "dom e7 \<subseteq> dom e8" by blast
  have ct8: "''ca_type'' \<in> dom e8" using ct4 m5 m6 m7 m8 by blast
  from fill_multi_choice_options_total [OF d(6) ct8, of c s g2] obtain e9 g3 where
    s8: "fill_multi_choice_options c (s @ [e8]) g2 (length s) fs = Inr (s @ [e9], g3)"
    and m9: "dom e8 \<subseteq> dom e9" by blast
  have fill: "fill_ca_entity_fields c (s @ [e1]) g1 (length s) fs = Inr (length s, s @ [e9], g3)"
    by (simp add: fill_ca_entity_fields_def s1 s2 s3 s4 s5 s6 s7 s8)
  have "''definition_type'' \<in> dom e9" using e1(2) m2 m3 m4 m5 m6 m7 m8 m9 by blast
  from normalize_ca_definition_type_total [OF this nf, of s] obtain e10 where
    n: "normalize_ca_definition_type c (s @ [e9]) (length s) = Inr (length s, s @ [e10])" by blast
  have "CAFactory_create c s g kwargs = Inr (length s, s @ [e10], g3)"
    by (simp add: CAFactory_create_def b cr fill n)
  then show ?thesis by blast
qed

text \<open>
  C5. Whenever \<open>CAFactory.create\<close> is called with a truthy \<open>title\<close> and returns, the
  title of the returned entity is the value of the \<open>definition_type\<close> argument
  (\<^verbatim>\<open>None\<close> when it is not supplied), whatever the supplied title is; so the supplied title
  is on the entity only when the two values coincide.
\<close>

theorem ca_title_is_definition_type:
  assumes "CAFactory_create c s g kwargs = Inr (r, s', g')"
    and "map_of kwargs ''title'' = Some title" and "truthy title"
  shows "(s' ! r) ''title'' =
           Some (case map_of kwargs ''definition_type'' of None \<Rightarrow> PNone | Some v \<Rightarrow> v)
       \<and> (title \<noteq> (case map_of kwargs ''definition_type'' of None \<Rightarrow> PNone | Some v \<Rightarrow> v)
            \<longrightarrow> (s' ! r) ''title'' \<noteq> Some title)"
  using CAFactory_create_result [OF assms(1)] assms(2,3) by auto

theorem ca_title_is_definition_type_witness:
  "\<exists>r s' g'.
     CAFactory_create example_constants [] example_rng
       [(''title'', PStr ''my title''), (''definition_type'', PStr ''controls'')] = Inr (r, s', g') \<and>
     (s' ! r) ''title'' = Some (PStr ''controls'')"
proof -
  let ?kw = "[(''title'', PStr ''my title''), (''definition_type'', PStr ''controls'')]"
  have "\<not> isl (CAFactory_create example_constants [] example_rng ?kw)" by code_simp
  then obtain r s' g' where run: "CAFactory_create example_constants [] example_rng ?kw = Inr (r, s', g')"
    by (cases "CAFactory_create example_constants [] example_rng ?kw") auto
  have h2: "map_of ?kw ''title'' = Some (PStr ''my title'')" by simp
  have h3: "truthy (PStr ''my title'')" by simp
  from ca_title_is_definition_type [OF run h2 h3, THEN conjunct1]
  have "(s' ! r) ''title'' = Some (PStr ''controls'')" by simp
  with run show ?thesis by blast
qed

text \<open>
  C10. Whenever \<open>CAFactory.create\<close> is called with a truthy \<open>title\<close> and without a
  \<open>definition_type\<close> and returns, the title of the returned entity is \<^verbatim>\<open>None\<close>, the
  default of the \<open>definition_type\<close> parameter: the entity has no title and the supplied
  one is discarded.
\<close>

theorem ca_title_none_without_definition_type:
  assumes "CAFactory_create c s g kwargs = Inr (r, s', g')"
    and "map_of kwargs ''title'' = Some title" and "truthy title"
    and "map_of kwargs ''definition_type'' = None"
  shows "(s' ! r) ''title'' = Some PNone \<and> (s' ! r) ''title'' \<noteq> Some title"
  using CAFactory_create_result [OF assms(1)] assms(2,3,4) by auto

theorem ca_title_none_without_definition_type_witness:
  "\<exists>r s' g'.
     CAFactory_create example_constants [] example_rng [(''title'', PStr ''my title'')] = Inr (r, s', g') \<and>
     (s' ! r) ''title'' = Some PNone"
proof -
  let ?kw = "[(''title'', PStr ''my title'')]"
  have "\<not> isl (CAFactory_create example_constants [] example_rng ?kw)" by code_simp
  then obtain r s' g' where run: "CAFactory_create example_constants [] example_rng ?kw = Inr (r, s', g')"
    by (cases "CAFactory_create example_constants [] example_rng ?kw") auto
  have h2: "map_of ?kw ''title'' = Some (PStr ''my title'')" by simp
  have h3: "truthy (PStr ''my title'')" by simp
  have h4: "map_of ?kw ''definition_type'' = None" by simp
  from ca_title_none_without_definition_type [OF run h2 h3 h4, THEN conjunct1] run
  show ?thesis by blast
qed

text \<open>
  C6, as amended. Whenever \<open>CAFactory.create\<close> returns: a truthy \<open>placeholder\<close> argument
  is on the returned entity when the entity's \<open>ca_type\<close> is Text or Rich Text; for every
  other \<open>ca_type\<close>, whatever the argument, and for a falsy argument, whatever the
  \<open>ca_type\<close>, the entity's placeholder is the one the entity was constructed with.
\<close>

theorem ca_placeholder:
  assumes "CAFactory_create c s g kwargs = Inr (r, s', g')"
  shows "(\<forall>p. map_of kwargs ''placeholder'' = Some p \<and> truthy p \<and>
              ((s' ! r) ''ca_type'' = Some (PStr (TEXT c)) \<or>
               (s' ! r) ''ca_type'' = Some (PStr (RICH_TEXT c)))
            \<longrightarrow> (s' ! r) ''placeholder'' = Some p)
       \<and> ((s' ! r) ''ca_type'' \<noteq> Some (PStr (TEXT c)) \<and>
          (s' ! r) ''ca_type'' \<noteq> Some (PStr (RICH_TEXT c))
            \<longrightarrow> (s' ! r) ''placeholder'' = new_entity c ''CustomAttributeEntity'' ''placeholder'')
       \<and> (\<forall>p. map_of kwargs ''placeholder'' = Some p \<and> \<not> truthy p
            \<longrightarrow> (s' ! r) ''placeholder'' = new_entity c ''CustomAttributeEntity'' ''placeholder'')"
  using CAFactory_create_result [OF assms(1)] by auto

theorem ca_placeholder_witness:
  "\<exists>r s' g'.
     CAFactory_create example_constants [] example_rng
       [(''ca_type'', PStr ''Rich Text''), (''placeholder'', PStr ''type here'')] = Inr (r, s', g') \<and>
     (s' ! r) ''ca_type'' = Some (PStr ''Rich Text'') \<and>
     (s' ! r) ''placeholder'' = Some (PStr ''type here'')"
proof -
  let ?kw = "[(''ca_type'', PStr ''Rich Text''), (''placeholder'', PStr ''type here'')]"
  have "observe_one (CAFactory_create example_constants [] example_rng ?kw) [''ca_type'']
          = Inr (0, [Some (PStr ''Rich Text'')])" by code_simp
  then obtain r s' g' where run: "CAFactory_create example_constants [] example_rng ?kw = Inr (r, s', g')"
    and ct: "(s' ! r) ''ca_type'' = Some (PStr ''Rich Text'')"
    by (auto simp: observe_one_def split: sum.splits)
  have h: "map_of ?kw ''placeholder'' = Some (PStr ''type here'') \<and> truthy (PStr ''type here'') \<and>
      ((s' ! r) ''ca_type'' = Some (PStr (TEXT example_constants)) \<or>
       (s' ! r) ''ca_type'' = Some (PStr (RICH_TEXT example_constants)))"
    using ct by (simp add: example_constants_def)
  from ca_placeholder [OF run, THEN conjunct1, rule_format, OF h] run ct
  show ?thesis by blast
qed

text \<open>
  The claim as it was stated covers every placeholder value. The empty string is falsy, so
  it is not applied even when the kind is Text: the placeholder stays the one of a new
  entity (here \<^verbatim>\<open>None\<close>).
\<close>

theorem ca_placeholder_counterexample:
  "observe_one (CAFactory_create example_constants [] example_rng
       [(''ca_type'', PStr ''Text''), (''placeholder'', PStr [])]) [''ca_type'', ''placeholder'']
     = Inr (0, [Some (PStr ''Text''), Some PNone])"
  by code_simp

text \<open>
  C7. Whenever \<open>CAFactory.create\<close> returns: if the entity's \<open>ca_type\<close> is Dropdown and no
  \<open>multi_choice_options\<close> argument was supplied, the entity's \<open>multi_choice_options\<close> is
  a list of exactly 3 strings; if the \<open>ca_type\<close> is not Dropdown, the attribute is the one
  the entity was constructed with, whatever argument was supplied.
\<close>

theorem ca_multi_choice_options:
  assumes "CAFactory_create c s g kwargs = Inr (r, s', g')"
  shows "((s' ! r) ''ca_type'' = Some (PStr (DROPDOWN c)) \<and>
          map_of kwargs ''multi_choice_options'' = None
            \<longrightarrow> (\<exists>xs. (s' ! r) ''multi_choice_options'' = Some (PStrList xs) \<and> length xs = 3))
       \<and> ((s' ! r) ''ca_type'' \<noteq> Some (PStr (DROPDOWN c))
            \<longrightarrow> (s' ! r) ''multi_choice_options'' =
                  new_entity c ''CustomAttributeEntity'' ''multi_choice_options'')"
proof -
  from CAFactory_create_result [OF assms] obtain e where r: "r = length s" and s': "s' = s @ [e]"
    and a: "e ''ca_type'' \<noteq> Some (PStr (DROPDOWN c)) \<longrightarrow>
        e ''multi_choice_options'' = new_entity c ''CustomAttributeEntity'' ''multi_choice_options''"
    and b: "e ''ca_type'' = Some (PStr (DROPDOWN c)) \<and>
      \<not> truthy (case map_of kwargs ''multi_choice_options'' of None \<Rightarrow> PNone | Some v \<Rightarrow> v) \<longrightarrow>
        (\<exists>xs. e ''multi_choice_options'' = Some (PStrList xs) \<and> length xs = 3)"
    by blast
  have e: "s' ! r = e" by (simp add: r s')
  show ?thesis unfolding e using a b by simp
qed

theorem ca_multi_choice_options_witness:
  "\<exists>r s' g'.
     CAFactory_create example_constants [] example_rng [(''ca_type'', PStr ''Dropdown'')] = Inr (r, s', g') \<and>
     (s' ! r) ''ca_type'' = Some (PStr ''Dropdown'') \<and>
     (\<exists>xs. (s' ! r) ''multi_choice_options'' = Some (PStrList xs) \<and> length xs = 3)"
proof -
  let ?kw = "[(''ca_type'', PStr ''Dropdown'')]"
  have "observe_one (CAFactory_create example_constants [] example_rng ?kw) [''ca_type'']
          = Inr (0, [Some (PStr ''Dropdown'')])" by code_simp
  then obtain r s' g' where run: "CAFactory_create example_constants [] example_rng ?kw = Inr (r, s', g')"
    and ct: "(s' ! r) ''ca_type'' = Some (PStr ''Dropdown'')"
    by (auto simp: observe_one_def split: sum.splits)
  have h: "(s' ! r) ''ca_type'' = Some (PStr (DROPDOWN example_constants)) \<and>
          map_of ?kw ''multi_choice_options'' = None"
    using ct by (simp add: example_constants_def)
  from ca_multi_choice_options [OF run, THEN conjunct1, rule_format, OF h] run ct
  show ?thesis by blast
qed

lemma CAFactory_create_dropdown_example:
  "observe_one (CAFactory_create example_constants [] example_rng [(''ca_type'', PStr ''Dropdown'')])
       [''ca_type'', ''title'', ''definition_type'', ''multi_choice_options'']
     = Inr (0, [Some (PStr ''Dropdown''), Some (PStr ''Dropdown_tok1_$#!%''),
                Some (PStr ''Programs''), Some (PStrList [''tok2'', ''tok3'', ''tok4''])])"
  by code_simp

end
